theory Spec2Isabelle
  imports Main "HOL-Library.Sublist"
begin

section \<open>Data model (src/types/review.ts, src/reviewer/github-client.ts)\<close>

text \<open>
  A JavaScript string is modelled as a \<^typ>\<open>string\<close>: the list of its UTF-16 code units,
  for code units below 256.  A \<open>number\<close> that the schema constrains to an integer is an
  \<^typ>\<open>int\<close>; an optional field is an \<^typ>\<open>'a option\<close> with \<open>None\<close> for \<open>undefined\<close>.
  The field \<open>file\<close> of a finding is called \<open>file_path\<close> here, and the fields of an
  existing comment carry the prefix \<open>c_\<close>.
\<close>

datatype Severity = critical | high | medium | low

datatype Confidence = conf_high | conf_medium | conf_low

datatype Category =
  security | performance | logic | error_handling | type_safety | maintainability

record Finding =
  severity :: Severity
  category :: Category
  confidence :: Confidence
  file_path :: string
  line :: int
  endLine :: "int option"
  title :: string
  description :: string
  suggestion :: "string option"
  severityReason :: string
  references :: "string list option"
  hash :: string

datatype ReviewStatus = completed | skipped | failed

record ReviewMetadata =
  headCommit :: string
  filesReviewed :: int
  skippedFiles :: "string list"
  reviewDurationMs :: int

record ReviewResult =
  status :: ReviewStatus
  summary :: string
  findings :: "Finding list"
  metadata :: ReviewMetadata
  error :: "string option"

datatype ReviewAction = request_changes | comment | approve

text \<open>
  A value that \<open>JSON.parse\<close> returns.  A string value is the list of its UTF-16 code
  units, each below 65536 (an escape with four hexadecimal digits can name any of them); a number is kept
  as its numeral; an object is the list of its members in the order of the text.
\<close>

datatype json =
  JNull | JBool bool | JNumber string | JString "nat list"
  | JArray "json list" | JObject "(nat list \<times> json) list"

definition codeUnits :: "string \<Rightarrow> nat list" where
  "codeUnits s = map of_char s"

text \<open>The JavaScript string with the given characters, as a value.\<close>

definition jsString :: "string \<Rightarrow> json" where
  "jsString s = JString (codeUnits s)"

text \<open>
  The declared type of \<open>ExistingComment.hash\<close> is \<open>string | null\<close>, but the value stored
  is \<open>metadata.hash ?? null\<close> for the parsed metadata of the comment, whatever its type:
  \<open>c_hash\<close> is that value, \<open>JNull\<close> for \<open>null\<close>.
\<close>

record ExistingComment =
  c_id :: int
  c_body :: string
  c_path :: string
  c_line :: int
  c_hash :: json

section \<open>Verdict (src/types/review.ts)\<close>




section \<open>Reconciliation (src/reviewer/reconciler.ts)\<close>

record ReconciliationResult =
  newFindings :: "Finding list"
  fixedCommentIds :: "int list"
  persistingCommentIds :: "int list"

text \<open>
  The \<open>for\<close> loop of \<open>reconcileFindings\<close>: the two accumulators are the arrays
  \<open>fixedCommentIds\<close> and \<open>persistingCommentIds\<close>, and \<open>push\<close> appends at the end.  The two
  sets hold values; \<open>Set.has\<close> finds the hash of a finding, a string, only if a string
  with the same code units is in the set, and it finds no value that is not a string in
  the set of the hashes of the findings.
\<close>

fun reconcileLoop ::
  "json set \<Rightarrow> ExistingComment list \<Rightarrow> int list \<times> int list \<Rightarrow> int list \<times> int list" where
  "reconcileLoop newHashes [] acc = acc"
| "reconcileLoop newHashes (c # cs) (fixed, persisting) =
     (if c_hash c = JNull then reconcileLoop newHashes cs (fixed, persisting)
      else if c_hash c \<in> newHashes
      then reconcileLoop newHashes cs (fixed, persisting @ [c_id c])
      else reconcileLoop newHashes cs (fixed @ [c_id c], persisting))"

definition reconcileFindings :: "Finding list \<Rightarrow> ExistingComment list \<Rightarrow> ReconciliationResult" where
  "reconcileFindings currentFindings existingComments =
     (let existingHashes =
            set (map c_hash (filter (\<lambda>c. c_hash c \<noteq> JNull) existingComments));
          newHashes = set (map (\<lambda>f. jsString (hash f)) currentFindings);
          newFindingsToPost =
            filter (\<lambda>f. jsString (hash f) \<notin> existingHashes) currentFindings;
          (fixed, persisting) = reconcileLoop newHashes existingComments ([], [])
      in \<lparr> newFindings = newFindingsToPost,
           fixedCommentIds = fixed,
           persistingCommentIds = persisting \<rparr>)"

definition hasBlockingIssuesRemaining :: "Finding list \<Rightarrow> ExistingComment list \<Rightarrow> bool" where
  "hasBlockingIssuesRemaining currentFindings existingComments =
     (let reconciliation = reconcileFindings currentFindings existingComments;
          blockingFindings = filter (\<lambda>f. severity f = critical) (newFindings reconciliation)
      in length blockingFindings > 0)"


text \<open>The comments that carry a hash (a value other than \<open>null\<close>), in their order.\<close>

definition hashedComments :: "ExistingComment list \<Rightarrow> ExistingComment list" where
  "hashedComments cs = filter (\<lambda>c. c_hash c \<noteq> JNull) cs"

section \<open>Numbers and strings of the runtime\<close>

text \<open>
  \<open>Number.prototype.toString(radix)\<close> on a non-negative integer: the digits, most
  significant first, with lower-case letters above 9.  \<open>digitChar\<close> is only applied to a
  value below the radix (at most 16), and \<open>toRadix\<close> only to a non-negative number.
\<close>

definition digitChar :: "nat \<Rightarrow> char" where
  "digitChar d = ''0123456789abcdef'' ! d"

function toRadix :: "int \<Rightarrow> int \<Rightarrow> string" where
  "toRadix r n =
     (if r < 2 \<or> n < r then [digitChar (nat n)]
      else toRadix r (n div r) @ [digitChar (nat (n mod r))])"
  by pat_completeness auto
termination
  by (relation "measure (\<lambda>(r, n). nat n)") (auto simp: pos_imp_zdiv_neg_iff zdiv_mono2_neg intro: int_div_less_self)

text \<open>The decimal numeral that a template literal prints for an integer.\<close>

definition numberToString :: "int \<Rightarrow> string" where
  "numberToString n =
     (if n < 0 then CHR ''-'' # toRadix 10 (- n) else toRadix 10 n)"

definition padStart :: "nat \<Rightarrow> char \<Rightarrow> string \<Rightarrow> string" where
  "padStart w c s = (if length s \<ge> w then s else replicate (w - length s) c @ s)"

text \<open>
  \<open>String.prototype.toLowerCase\<close> on code units below 256: the letters A to Z and the
  Latin-1 capitals U+00C0 to U+00DE (the multiplication sign U+00D7 apart) move up by 32.
\<close>

definition lowerChar :: "char \<Rightarrow> char" where
  "lowerChar c =
     (let n = (of_char c :: nat)
      in if (65 \<le> n \<and> n \<le> 90) \<or> (192 \<le> n \<and> n \<le> 222 \<and> n \<noteq> 215)
         then char_of (n + 32) else c)"

definition toLowerCase :: "string \<Rightarrow> string" where
  "toLowerCase s = map lowerChar s"

text \<open>The character class \<open>[a-z0-9]\<close>.\<close>

definition isLowerAlnum :: "char \<Rightarrow> bool" where
  "isLowerAlnum c =
     (let n = (of_char c :: nat) in (97 \<le> n \<and> n \<le> 122) \<or> (48 \<le> n \<and> n \<le> 57))"

text \<open>\<open>ToInt32\<close>: the value of a bitwise operator's operand and result.\<close>

definition toInt32 :: "int \<Rightarrow> int" where
  "toInt32 x = (x + 2 ^ 31) mod 2 ^ 32 - 2 ^ 31"

section \<open>The finding hash (src/reviewer/reconciler.ts, \<open>generateHash\<close>)\<close>

text \<open>\<open>title.toLowerCase().replace(/[^a-z0-9]/g, '')\<close>\<close>

definition normalizedTitle :: "string \<Rightarrow> string" where
  "normalizedTitle t = filter isLowerAlnum (toLowerCase t)"

text \<open>
  \<open>endLine ? `${line}-${endLine}` : `${line}`\<close>: the test is the truthiness of
  \<open>endLine\<close>, so that \<open>undefined\<close> and \<open>0\<close> both take the second branch.
\<close>

definition lineRange :: "int \<Rightarrow> int option \<Rightarrow> string" where
  "lineRange ln e =
     (case e of
        None \<Rightarrow> numberToString ln
      | Some el \<Rightarrow>
          if el \<noteq> 0 then numberToString ln @ ''-'' @ numberToString el
          else numberToString ln)"

definition hashInput :: "string \<Rightarrow> int \<Rightarrow> int option \<Rightarrow> string \<Rightarrow> string" where
  "hashInput f ln e t = f @ '':'' @ lineRange ln e @ '':'' @ normalizedTitle t"

text \<open>
  The loop body \<open>hash = ((hash << 5) - hash) + char; hash = hash & hash\<close>: the shift
  yields the 32-bit value of \<open>hash * 32\<close>, the subtraction and the addition are exact, and
  \<open>hash & hash\<close> converts the sum back to a signed 32-bit value.
\<close>

fun hashLoop :: "int \<Rightarrow> string \<Rightarrow> int" where
  "hashLoop h [] = h"
| "hashLoop h (c # cs) = hashLoop (toInt32 (toInt32 (h * 32) - h + int (of_char c))) cs"

definition generateHash :: "string \<Rightarrow> int \<Rightarrow> int option \<Rightarrow> string \<Rightarrow> string" where
  "generateHash f ln e t =
     padStart 8 CHR ''0'' (toRadix 16 \<bar>hashLoop 0 (hashInput f ln e t)\<bar>)"

declare toRadix.simps [simp del]

section \<open>Webhook dispatcher (pull-request handler)\<close>

text \<open>
  A thrown \<open>Error\<close> is modelled by its message: a computation that may throw returns
  \<open>Inl message\<close> or \<open>Inr value\<close>.
\<close>

record PullRequestRef =
  pr_number :: int
  pr_state :: string
  pr_draft :: bool

record Reviewer =
  r_login :: string
  r_type :: string

record Repository =
  full_name :: string
  owner_login :: string
  repo_name :: string

text \<open>\<open>installation\<close> holds \<open>installation.id\<close> when the member is present.\<close>

record PullRequestPayload =
  p_action :: string
  p_number :: int
  pull_request :: PullRequestRef
  repository :: Repository
  installation :: "int option"
  requested_reviewer :: "Reviewer option"

definition shouldTriggerReview :: "PullRequestPayload \<Rightarrow> bool" where
  "shouldTriggerReview payload =
     (let validActions = [''review_requested'', ''ready_for_review'']
      in if p_action payload \<notin> set validActions then False
         else if pr_state (pull_request payload) \<noteq> ''open'' then False
         else if pr_draft (pull_request payload) then False
         else if p_action payload = ''review_requested''
                 \<and> (case requested_reviewer payload of
                        Some reviewer \<Rightarrow> r_type reviewer = ''Bot''
                      | None \<Rightarrow> False)
              then True
         else if p_action payload = ''ready_for_review'' then True
         else False)"

text \<open>
  \<open>Buffer.from(string)\<close>: the UTF-8 bytes of the string; a code unit from 128 to 255
  takes two bytes.
\<close>

definition utf8Char :: "char \<Rightarrow> nat list" where
  "utf8Char c =
     (let n = (of_char c :: nat)
      in if n < 128 then [n] else [192 + n div 64, 128 + n mod 64])"

definition Buffer_from :: "string \<Rightarrow> nat list" where
  "Buffer_from s = concat (map utf8Char s)"

text \<open>\<open>crypto.timingSafeEqual\<close> throws a \<open>RangeError\<close> on buffers of different byte length.\<close>

definition timingSafeEqual :: "nat list \<Rightarrow> nat list \<Rightarrow> string + bool" where
  "timingSafeEqual a b =
     (if length a \<noteq> length b then Inl ''Input buffers must have the same byte length''
      else Inr (a = b))"

text \<open>
  \<open>verifySignature\<close>; the keyed digest \<open>createHmac('sha256', secret).update(payload).digest('hex')\<close>
  is the parameter \<open>hmacHex secret payload\<close>.  The result is \<open>Inr\<close> of the returned boolean;
  \<open>Inl\<close> would be an exception that leaves the function.
\<close>

definition verifySignature ::
  "(string \<Rightarrow> string \<Rightarrow> string) \<Rightarrow> string \<Rightarrow> string \<Rightarrow> string \<Rightarrow> string + bool" where
  "verifySignature hmacHex payload signature secret =
     (let expected = ''sha256='' @ hmacHex secret payload
      in case timingSafeEqual (Buffer_from signature) (Buffer_from expected) of
           Inr b \<Rightarrow> Inr b
         | Inl e \<Rightarrow> Inr False)"

record WebhookEvent =
  e_headers :: "string \<rightharpoonup> string"
  e_body :: string

record DispatcherResponse =
  statusCode :: int
  r_body :: string

record DispatcherConfig =
  webhookSecret :: string
  ecsCluster :: string
  ecsTaskDefinition :: string
  ecsSubnets :: "string list"
  ecsSecurityGroups :: "string list"
  containerName :: string

record ReviewTaskParams =
  t_owner :: string
  t_repo :: string
  t_prNumber :: int
  t_installationId :: int

text \<open>
  What the handler gets from its collaborators: the configuration secret (\<open>getConfig\<close>),
  the keyed digest, \<open>JSON.parse(event.body) as PullRequestPayload\<close>, and the task launch
  of \<open>spawnReviewTask\<close>, which returns the message of the error it throws, if any.
\<close>

record DispatcherEnv =
  getConfig :: "string + DispatcherConfig"
  hmacHex :: "string \<Rightarrow> string \<Rightarrow> string"
  parseBody :: "string \<Rightarrow> string + PullRequestPayload"
  runTask :: "DispatcherConfig \<Rightarrow> ReviewTaskParams \<Rightarrow> string option"

text \<open>
  \<open>handler\<close> returns the response and the list of review tasks it has launched.  Every
  \<open>Inl\<close> inside the \<open>try\<close> block ends in the \<open>catch\<close> clause, which answers 500.
\<close>

definition handler :: "DispatcherEnv \<Rightarrow> WebhookEvent \<Rightarrow> DispatcherResponse \<times> ReviewTaskParams list" where
  "handler env event =
     (case getConfig env of
        Inl message \<Rightarrow> (\<lparr>statusCode = 500, r_body = message\<rparr>, [])
      | Inr config \<Rightarrow>
          let signature = e_headers event ''x-hub-signature-256''
          in if signature = None \<or> signature = Some ''''
             then (\<lparr>statusCode = 401, r_body = ''Invalid signature''\<rparr>, [])
             else
               (case verifySignature (hmacHex env) (e_body event) (the signature) (webhookSecret config) of
                  Inl message \<Rightarrow> (\<lparr>statusCode = 500, r_body = message\<rparr>, [])
                | Inr valid \<Rightarrow>
                    if \<not> valid then (\<lparr>statusCode = 401, r_body = ''Invalid signature''\<rparr>, [])
                    else if e_headers event ''x-github-event'' \<noteq> Some ''pull_request''
                    then (\<lparr>statusCode = 200, r_body = ''Ignoring non-PR event''\<rparr>, [])
                    else
                      (case parseBody env (e_body event) of
                         Inl message \<Rightarrow> (\<lparr>statusCode = 500, r_body = message\<rparr>, [])
                       | Inr payload \<Rightarrow>
                           if \<not> shouldTriggerReview payload
                           then (\<lparr>statusCode = 200, r_body = ''No review needed for this action''\<rparr>, [])
                           else
                             (case installation payload of
                                None \<Rightarrow> (\<lparr>statusCode = 400, r_body = ''Missing installation ID''\<rparr>, [])
                              | Some installationId \<Rightarrow>
                                  if installationId = 0
                                  then (\<lparr>statusCode = 400, r_body = ''Missing installation ID''\<rparr>, [])
                                  else
                                    let params = \<lparr> t_owner = owner_login (repository payload),
                                                    t_repo = repo_name (repository payload),
                                                    t_prNumber = p_number payload,
                                                    t_installationId = installationId \<rparr>
                                    in (case runTask env config params of
                                          Some message \<Rightarrow> (\<lparr>statusCode = 500, r_body = message\<rparr>, [])
                                        | None \<Rightarrow>
                                            (\<lparr>statusCode = 202, r_body = ''Review task spawned''\<rparr>,
                                             [params]))))))"

section \<open>Regular expressions of the runtime\<close>

text \<open>
  The two patterns of the source use literals, the greedy \<open>[\s\S]*\<close> and the lazy \<open>.*?\<close>.
  \<open>matchHere rs s\<close> is the backtracking match of the item sequence \<open>rs\<close> at the start of
  \<open>s\<close>: it returns the text taken by each item, trying the longest text first for a
  greedy item and the shortest first for a lazy one.  \<open>search\<close> is
  \<open>String.prototype.match\<close> for a pattern without the \<open>g\<close> flag: the match at the
  leftmost position that has one.
\<close>

datatype rx = Lit string | AnyStar | DotLazy

text \<open>The dot matches every code unit that is not a line terminator.\<close>

definition isLineTerminator :: "char \<Rightarrow> bool" where
  "isLineTerminator c = (c = CHR 0x0A \<or> c = CHR 0x0D)"

fun matchHere :: "rx list \<Rightarrow> string \<Rightarrow> string list option" where
  "matchHere [] s = Some []"
| "matchHere (Lit l # rs) s =
     (if take (length l) s = l
      then map_option ((#) l) (matchHere rs (drop (length l) s))
      else None)"
| "matchHere (AnyStar # rs) [] = map_option ((#) []) (matchHere rs [])"
| "matchHere (AnyStar # rs) (c # cs) =
     (case matchHere (AnyStar # rs) cs of
        Some (p # ps) \<Rightarrow> Some ((c # p) # ps)
      | _ \<Rightarrow> map_option ((#) []) (matchHere rs (c # cs)))"
| "matchHere (DotLazy # rs) [] = map_option ((#) []) (matchHere rs [])"
| "matchHere (DotLazy # rs) (c # cs) =
     (case matchHere rs (c # cs) of
        Some ps \<Rightarrow> Some ([] # ps)
      | None \<Rightarrow>
          if isLineTerminator c then None
          else (case matchHere (DotLazy # rs) cs of
                  Some (p # ps) \<Rightarrow> Some ((c # p) # ps)
                | _ \<Rightarrow> None))"

fun search :: "rx list \<Rightarrow> string \<Rightarrow> string list option" where
  "search rs [] = matchHere rs []"
| "search rs (c # cs) =
     (case matchHere rs (c # cs) of
        Some ps \<Rightarrow> Some ps
      | None \<Rightarrow> search rs cs)"

text \<open>What a sequence of texts must satisfy to be a match of an item sequence.\<close>

fun pieceOk :: "rx \<Rightarrow> string \<Rightarrow> bool" where
  "pieceOk (Lit l) p = (p = l)"
| "pieceOk AnyStar p = True"
| "pieceOk DotLazy p = (\<not> list_ex isLineTerminator p)"

section \<open>Engine output parser (src/reviewer/cli-runner.ts)\<close>

record CliRunnerResult =
  success :: bool
  result :: "ReviewResult option"
  cli_error :: "string option"
  rawOutput :: "string option"

text \<open>\<open>/\{[\s\S]*"status"[\s\S]*"findings"[\s\S]*\}/\<close>\<close>

definition outputPattern :: "rx list" where
  \<open>outputPattern =
     [Lit ''{'', AnyStar, Lit ''"status"'', AnyStar, Lit ''"findings"'', AnyStar, Lit ''}'']\<close>

text \<open>
  \<open>parseReviewOutput\<close>.  \<open>JSON.parse\<close> and \<open>ReviewResultSchema.parse\<close> belong to the
  runtime and to the schema library; they are the parameters \<open>jsonParse\<close> and
  \<open>schemaParse\<close>, which return \<open>Inl\<close> of the message of the error they throw.
\<close>

definition parseReviewOutput ::
  "(string \<Rightarrow> string + 'j) \<Rightarrow> ('j \<Rightarrow> string + ReviewResult) \<Rightarrow> string \<Rightarrow> CliRunnerResult" where
  "parseReviewOutput jsonParse schemaParse output =
     (case search outputPattern output of
        None \<Rightarrow>
          \<lparr> success = False, result = None,
            cli_error = Some ''Could not find JSON in Claude output'',
            rawOutput = Some output \<rparr>
      | Some jsonMatch \<Rightarrow>
          (case jsonParse (concat jsonMatch) of
             Inl errorMessage \<Rightarrow>
               \<lparr> success = False, result = None,
                 cli_error = Some (''Failed to parse review JSON: '' @ errorMessage),
                 rawOutput = Some output \<rparr>
           | Inr parsed \<Rightarrow>
               (case schemaParse parsed of
                  Inl errorMessage \<Rightarrow>
                    \<lparr> success = False, result = None,
                      cli_error = Some (''Failed to parse review JSON: '' @ errorMessage),
                      rawOutput = Some output \<rparr>
                | Inr validated \<Rightarrow>
                    \<lparr> success = True, result = Some validated, cli_error = None,
                      rawOutput = Some output \<rparr>)))"

text \<open>
  The \<open>close\<close> listener of \<open>runClaudeReview\<close>: \<open>killed\<close> is set by the timeout, which has
  then resolved the promise already (\<open>None\<close> here); \<open>code\<close> is the exit status, \<open>None\<close>
  for \<open>null\<close>.
\<close>

definition onClose ::
  "(string \<Rightarrow> string + 'j) \<Rightarrow> ('j \<Rightarrow> string + ReviewResult) \<Rightarrow>
     bool \<Rightarrow> int option \<Rightarrow> string \<Rightarrow> string \<Rightarrow> CliRunnerResult option" where
  "onClose jsonParse schemaParse killed code stdout stderr =
     (if killed then None
      else if code \<noteq> Some 0
      then Some \<lparr> success = False, result = None,
                  cli_error = Some (''Claude CLI exited with code ''
                     @ (case code of None \<Rightarrow> ''null'' | Some n \<Rightarrow> numberToString n)
                     @ '': '' @ stderr),
                  rawOutput = Some stdout \<rparr>
      else Some (parseReviewOutput jsonParse schemaParse stdout))"

section \<open>Comment builder (src/reviewer/comment-builder.ts)\<close>













text \<open>\<open>String.prototype.split\<close> on a one-character separator, and \<open>Array.prototype.join\<close>.\<close>

fun split :: "char \<Rightarrow> string \<Rightarrow> string list" where
  "split sep [] = [[]]"
| "split sep (c # cs) =
     (if c = sep then [] # split sep cs
      else (case split sep cs of [] \<Rightarrow> [[c]] | p # ps \<Rightarrow> (c # p) # ps))"













section \<open>JSON.parse\<close>

text \<open>
  A model of the runtime's \<open>JSON.parse\<close>: \<open>None\<close> is the thrown \<open>SyntaxError\<close>.  A number
  keeps its text.  A string is decoded into its code units: a character of the text is
  its own code unit, and an escape \<open>\uXXXX\<close> is the code unit with that hexadecimal
  numeral.  The fuel of \<open>parseValue\<close> bounds the number of nested and listed values;
  \<open>JSON_parse\<close> supplies twice the length of the text.
\<close>

definition isJsonSpace :: "char \<Rightarrow> bool" where
  "isJsonSpace c = (c = CHR '' '' \<or> c = CHR 0x09 \<or> c = CHR 0x0A \<or> c = CHR 0x0D)"

definition skipWs :: "string \<Rightarrow> string" where
  "skipWs s = dropWhile isJsonSpace s"

definition isDigit :: "char \<Rightarrow> bool" where
  "isDigit c = (let n = (of_char c :: nat) in 48 \<le> n \<and> n \<le> 57)"

definition hexVal :: "char \<Rightarrow> nat option" where
  "hexVal c =
     (let n = (of_char c :: nat)
      in if 48 \<le> n \<and> n \<le> 57 then Some (n - 48)
         else if 97 \<le> n \<and> n \<le> 102 then Some (n - 87)
         else if 65 \<le> n \<and> n \<le> 70 then Some (n - 55)
         else None)"

definition unescape :: "char \<Rightarrow> nat option" where
  "unescape e =
     (if e = CHR 0x22 then Some 0x22
      else if e = CHR 0x5C then Some 0x5C
      else if e = CHR ''/'' then Some 0x2F
      else if e = CHR ''b'' then Some 0x08
      else if e = CHR ''f'' then Some 0x0C
      else if e = CHR ''n'' then Some 0x0A
      else if e = CHR ''r'' then Some 0x0D
      else if e = CHR ''t'' then Some 0x09
      else None)"

text \<open>The code units of a string literal after its opening quote, and the text after it.\<close>

fun parseChars :: "string \<Rightarrow> (nat list \<times> string) option" where
  "parseChars [] = None"
| "parseChars (c # cs) =
     (if c = CHR 0x22 then Some ([], cs)
      else if c = CHR 0x5C then
        (case cs of
           [] \<Rightarrow> None
         | e # r \<Rightarrow>
             if e = CHR ''u'' then
               (case r of
                  h1 # h2 # h3 # h4 # r' \<Rightarrow>
                    (case (hexVal h1, hexVal h2, hexVal h3, hexVal h4) of
                       (Some a, Some b, Some c', Some d) \<Rightarrow>
                         let n = ((a * 16 + b) * 16 + c') * 16 + d
                         in map_option (\<lambda>(x, t). (n # x, t)) (parseChars r')
                     | _ \<Rightarrow> None)
                | _ \<Rightarrow> None)
             else
               (case unescape e of
                  None \<Rightarrow> None
                | Some u \<Rightarrow> map_option (\<lambda>(x, t). (u # x, t)) (parseChars r)))
      else if (of_char c :: nat) < 32 then None
      else map_option (\<lambda>(x, t). (of_char c # x, t)) (parseChars cs))"

text \<open>\<open>-? (0 | [1-9][0-9]*) (. [0-9]+)? ([eE] [+-]? [0-9]+)?\<close>\<close>

definition parseNumber :: "string \<Rightarrow> (string \<times> string) option" where
  "parseNumber s =
     (let (sign, s1) = (case s of c # r \<Rightarrow> if c = CHR ''-'' then (''-'', r) else ('''', s)
                        | [] \<Rightarrow> ('''', s))
      in case s1 of
           [] \<Rightarrow> None
         | d # r \<Rightarrow>
             if \<not> isDigit d then None
             else
               let (ip, s2) = (if d = CHR ''0'' then ([d], r)
                               else (d # takeWhile isDigit r, dropWhile isDigit r));
                   fr = (case s2 of
                           c # r2 \<Rightarrow>
                             if c = CHR ''.''
                             then (if takeWhile isDigit r2 = [] then None
                                   else Some (c # takeWhile isDigit r2, dropWhile isDigit r2))
                             else Some ('''', s2)
                         | [] \<Rightarrow> Some ('''', s2))
               in case fr of
                    None \<Rightarrow> None
                  | Some (fp, s3) \<Rightarrow>
                      (case s3 of
                         e # r3 \<Rightarrow>
                           if e = CHR ''e'' \<or> e = CHR ''E''
                           then
                             let (es, r4) = (case r3 of
                                               g # r5 \<Rightarrow> if g = CHR ''+'' \<or> g = CHR ''-''
                                                         then ([g], r5) else ('''', r3)
                                             | [] \<Rightarrow> ('''', r3))
                             in if takeWhile isDigit r4 = [] then None
                                else Some (sign @ ip @ fp @ [e] @ es @ takeWhile isDigit r4,
                                           dropWhile isDigit r4)
                           else Some (sign @ ip @ fp, s3)
                       | [] \<Rightarrow> Some (sign @ ip @ fp, s3)))"

fun parseValue :: "nat \<Rightarrow> string \<Rightarrow> (json \<times> string) option"
  and parseElements :: "nat \<Rightarrow> string \<Rightarrow> (json list \<times> string) option"
  and parseMembers :: "nat \<Rightarrow> string \<Rightarrow> ((nat list \<times> json) list \<times> string) option" where
  "parseValue 0 s = None"
| "parseValue (Suc n) s =
     (case skipWs s of
        [] \<Rightarrow> None
      | c # r \<Rightarrow>
          if c = CHR ''{'' then
            (case skipWs r of
               [] \<Rightarrow> None
             | d # r' \<Rightarrow>
                 if d = CHR ''}'' then Some (JObject [], r')
                 else map_option (\<lambda>(ms, t). (JObject ms, t)) (parseMembers n r))
          else if c = CHR ''['' then
            (case skipWs r of
               [] \<Rightarrow> None
             | d # r' \<Rightarrow>
                 if d = CHR '']'' then Some (JArray [], r')
                 else map_option (\<lambda>(vs, t). (JArray vs, t)) (parseElements n r))
          else if c = CHR 0x22 then map_option (\<lambda>(x, t). (JString x, t)) (parseChars r)
          else if take 4 (c # r) = ''true'' then Some (JBool True, drop 4 (c # r))
          else if take 5 (c # r) = ''false'' then Some (JBool False, drop 5 (c # r))
          else if take 4 (c # r) = ''null'' then Some (JNull, drop 4 (c # r))
          else map_option (\<lambda>(x, t). (JNumber x, t)) (parseNumber (c # r)))"
| "parseElements 0 s = None"
| "parseElements (Suc n) s =
     (case parseValue n s of
        None \<Rightarrow> None
      | Some (v, r) \<Rightarrow>
          (case skipWs r of
             [] \<Rightarrow> None
           | d # r' \<Rightarrow>
               if d = CHR '','' then map_option (\<lambda>(vs, t). (v # vs, t)) (parseElements n r')
               else if d = CHR '']'' then Some ([v], r')
               else None))"
| "parseMembers 0 s = None"
| "parseMembers (Suc n) s =
     (case skipWs s of
        [] \<Rightarrow> None
      | q # r \<Rightarrow>
          if q \<noteq> CHR 0x22 then None
          else
            (case parseChars r of
               None \<Rightarrow> None
             | Some (k, r1) \<Rightarrow>
                 (case skipWs r1 of
                    [] \<Rightarrow> None
                  | col # r2 \<Rightarrow>
                      if col \<noteq> CHR '':'' then None
                      else
                        (case parseValue n r2 of
                           None \<Rightarrow> None
                         | Some (v, r3) \<Rightarrow>
                             (case skipWs r3 of
                                [] \<Rightarrow> None
                              | d # r4 \<Rightarrow>
                                  if d = CHR '','' then
                                    map_option (\<lambda>(ms, t). ((k, v) # ms, t)) (parseMembers n r4)
                                  else if d = CHR ''}'' then Some ([(k, v)], r4)
                                  else None)))))"

definition JSON_parse :: "string \<Rightarrow> json option" where
  "JSON_parse s =
     (case parseValue (2 * length s + 2) s of
        None \<Rightarrow> None
      | Some (v, r) \<Rightarrow> if skipWs r = [] then Some v else None)"

section \<open>Reading the bot's comments back (src/reviewer/github-client.ts)\<close>




text \<open>
  The body of the loop of \<open>getExistingBotComments\<close>: \<open>None\<close> when nothing is pushed (no
  body, no match, or the \<open>catch\<close> clause).  The captured text starts with a brace, so a
  value parsed from it is an object; a property of an object is that of its last member
  with the name, and \<open>metadata.hash ?? null\<close> is \<open>null\<close> when there is none.
\<close>

definition property :: "json \<Rightarrow> string \<Rightarrow> json option" where
  "property j name =
     (case j of
        JObject members \<Rightarrow> map_of (rev members) (codeUnits name)
      | _ \<Rightarrow> None)"



section \<open>Remote calls and their effects\<close>


record Review =
  rv_id :: int
  rv_state :: string
  rv_body :: "string option"

datatype call =
    GetPullRequest
  | GetIssue
  | RemoveLabel string
  | AddLabels "string list"
  | CheckCli
  | GetChangedFiles
  | ListFiles
  | MakeWorkDir
  | CloneRepository
  | RunClaudeReview
  | ListReviewComments
  | GetReviewComment int
  | ResolveReviewThread int
  | CreateReviewComment Finding string
  | ListReviews
  | DismissReview int
  | CreateReview ReviewAction string
  | CreateIssueComment string
  | RemoveWorkDir

record world =
  calls :: "call list"
  labels :: "string list"


text \<open>
  An awaited computation: from a state to the thrown message (\<open>Inl\<close>) or the value
  (\<open>Inr\<close>), and the state reached.
\<close>

type_synonym 'a action = "world \<Rightarrow> (string + 'a) \<times> world"



definition andThen :: "'a action \<Rightarrow> ('a \<Rightarrow> 'b action) \<Rightarrow> 'b action" where
  "andThen m f s = (case m s of (Inl e, s') \<Rightarrow> (Inl e, s') | (Inr x, s') \<Rightarrow> f x s')"

text \<open>\<open>try { m } catch (err) { h(err.message) }\<close>\<close>

definition tryCatch :: "'a action \<Rightarrow> (string \<Rightarrow> 'a action) \<Rightarrow> 'a action" where
  "tryCatch m h s = (case m s of (Inl e, s') \<Rightarrow> h e s' | (Inr x, s') \<Rightarrow> (Inr x, s'))"






section \<open>Platform client (src/reviewer/github-client.ts)\<close>

definition LABEL_PENDING :: string where
  "LABEL_PENDING = ''ai-review-pending''"

definition LABEL_REVIEWED :: string where
  "LABEL_REVIEWED = ''ai-reviewed''"



















section \<open>Review session (src/reviewer/index.ts)\<close>


datatype OutcomeAction = out_reviewed | out_skipped | out_error

record ReviewOutcome =
  o_success :: bool
  o_action :: "OutcomeAction option"
  o_message :: string
  findingsCount :: "int option"

definition skippedOutcome :: "string \<Rightarrow> ReviewOutcome" where
  "skippedOutcome reason =
     \<lparr> o_success = True, o_action = Some out_skipped, o_message = reason, findingsCount = None \<rparr>"








section \<open>Notions used in the statements about a session\<close>



text \<open>Kinds of calls.\<close>

definition isPendingMark :: "call \<Rightarrow> bool" where
  "isPendingMark c = (c = AddLabels [LABEL_PENDING] \<or> c = RemoveLabel LABEL_REVIEWED)"

definition isReviewedMark :: "call \<Rightarrow> bool" where
  "isReviewedMark c = (c = AddLabels [LABEL_REVIEWED] \<or> c = RemoveLabel LABEL_PENDING)"

definition isPrecheck :: "call \<Rightarrow> bool" where
  "isPrecheck c = (c = GetChangedFiles \<or> c = ListFiles)"

definition isResolve :: "call \<Rightarrow> bool" where
  "isResolve c = (case c of ResolveReviewThread i \<Rightarrow> True | _ \<Rightarrow> False)"

definition isCreateComment :: "call \<Rightarrow> bool" where
  "isCreateComment c = (case c of CreateReviewComment f b \<Rightarrow> True | _ \<Rightarrow> False)"

definition isSummary :: "call \<Rightarrow> bool" where
  "isSummary c =
     (case c of CreateReview a b \<Rightarrow> True | CreateIssueComment b \<Rightarrow> True | _ \<Rightarrow> False)"

text \<open>\<open>precedes P Q cs\<close>: in the sequence \<open>cs\<close> every \<open>P\<close> call comes before every \<open>Q\<close> call.\<close>

fun precedes :: "(call \<Rightarrow> bool) \<Rightarrow> (call \<Rightarrow> bool) \<Rightarrow> call list \<Rightarrow> bool" where
  "precedes P Q [] = True"
| "precedes P Q (c # cs) = ((Q c \<longrightarrow> \<not> list_ex P cs) \<and> precedes P Q cs)"

text \<open>
  The stage of a call within one attempt of the work phase, and what it means for an
  action to issue its calls in the order of the stages, between two stages.
\<close>

definition stage :: "call \<Rightarrow> nat" where
  "stage c =
     (case c of
        GetPullRequest \<Rightarrow> 0
      | CheckCli \<Rightarrow> 1
      | GetChangedFiles \<Rightarrow> 2
      | ListFiles \<Rightarrow> 3
      | MakeWorkDir \<Rightarrow> 4
      | CloneRepository \<Rightarrow> 5
      | RunClaudeReview \<Rightarrow> 6
      | ListReviewComments \<Rightarrow> 7
      | GetReviewComment i \<Rightarrow> 8
      | ResolveReviewThread i \<Rightarrow> 8
      | CreateReviewComment f b \<Rightarrow> 9
      | ListReviews \<Rightarrow> 10
      | DismissReview i \<Rightarrow> 10
      | CreateReview a b \<Rightarrow> 11
      | CreateIssueComment b \<Rightarrow> 11
      | RemoveWorkDir \<Rightarrow> 12
      | GetIssue \<Rightarrow> 13
      | RemoveLabel l \<Rightarrow> 13
      | AddLabels ls \<Rightarrow> 13)"

definition staged :: "nat \<Rightarrow> nat \<Rightarrow> call list \<Rightarrow> bool" where
  "staged lo hi cs = (sorted (map stage cs) \<and> (\<forall>c \<in> set cs. lo \<le> stage c \<and> stage c \<le> hi))"

text \<open>\<open>issues m P\<close>: whatever the state and the result, \<open>m\<close> only adds calls, and the calls it adds satisfy \<open>P\<close>.\<close>

definition issues :: "'a action \<Rightarrow> (call list \<Rightarrow> bool) \<Rightarrow> bool" where
  "issues m P = (\<forall>s. \<exists>new. calls (snd (m s)) = calls s @ new \<and> P new)"

text \<open>\<open>ensures m Q\<close>: every value that \<open>m\<close> returns satisfies \<open>Q\<close>.\<close>

definition ensures :: "'a action \<Rightarrow> ('a \<Rightarrow> bool) \<Rightarrow> bool" where
  "ensures m Q = (\<forall>s y s'. m s = (Inr y, s') \<longrightarrow> Q y)"



section \<open>Example inputs\<close>

definition sqlFinding :: Finding where
  "sqlFinding =
     \<lparr> severity = critical, category = security, confidence = conf_high,
       file_path = ''src/auth/login.ts'', line = 45, endLine = Some 48,
       title = ''SQL injection vulnerability'',
       description = ''User input is passed directly to the SQL query.'',
       suggestion = Some ''await db.query(query, [userId]);'',
       severityReason = ''Direct user input in SQL queries is a well-known attack vector.'',
       references = Some [''https://owasp.org/www-community/attacks/SQL_Injection''],
       hash = ''a1b2c3d4e5f6'' \<rparr>"

definition nullFinding :: Finding where
  "nullFinding =
     \<lparr> severity = high, category = error_handling, confidence = conf_medium,
       file_path = ''src/api/user.ts'', line = 12, endLine = None,
       title = ''Missing null check'',
       description = ''The response may be null.'',
       suggestion = None,
       severityReason = ''A null response crashes the handler.'',
       references = None,
       hash = ''0badc0de'' \<rparr>"

definition exampleComments :: "ExistingComment list" where
  "exampleComments =
     [\<lparr> c_id = 101, c_body = ''first'', c_path = ''src/auth/login.ts'', c_line = 48,
         c_hash = jsString ''a1b2c3d4e5f6'' \<rparr>,
      \<lparr> c_id = 102, c_body = ''second'', c_path = ''src/db/pool.ts'', c_line = 7,
         c_hash = jsString ''deadbeef'' \<rparr>,
      \<lparr> c_id = 103, c_body = ''a reply'', c_path = ''src/db/pool.ts'', c_line = 7,
         c_hash = JNull \<rparr>]"

definition reviewRequestedPayload :: PullRequestPayload where
  "reviewRequestedPayload =
     \<lparr> p_action = ''review_requested'', p_number = 17,
       pull_request = \<lparr> pr_number = 17, pr_state = ''open'', pr_draft = False \<rparr>,
       repository = \<lparr> full_name = ''env0/demo'', owner_login = ''env0'', repo_name = ''demo'' \<rparr>,
       installation = Some 4242,
       requested_reviewer = Some \<lparr> r_login = ''claude-pr-reviewer[bot]'', r_type = ''Bot'' \<rparr> \<rparr>"

text \<open>The same request, addressed to another bot account.\<close>

definition otherBotPayload :: PullRequestPayload where
  "otherBotPayload =
     reviewRequestedPayload
       \<lparr>requested_reviewer := Some \<lparr> r_login = ''dependabot[bot]'', r_type = ''Bot'' \<rparr>\<rparr>"

definition exampleConfig :: DispatcherConfig where
  "exampleConfig =
     \<lparr> webhookSecret = ''s3cret'', ecsCluster = ''cluster'', ecsTaskDefinition = ''task'',
       ecsSubnets = [''subnet-1''], ecsSecurityGroups = [''sg-1''], containerName = ''reviewer'' \<rparr>"

text \<open>A stand-in digest, a body decoder that knows three bodies, and a launcher that succeeds.\<close>

definition exampleDispatcherEnv :: DispatcherEnv where
  "exampleDispatcherEnv =
     \<lparr> getConfig = Inr exampleConfig,
       hmacHex = (\<lambda>secret payload. ''00ff''),
       parseBody = (\<lambda>b. if b = ''requested'' then Inr reviewRequestedPayload
                         else if b = ''opened'' then Inr (reviewRequestedPayload\<lparr>p_action := ''opened''\<rparr>)
                         else if b = ''other-bot'' then Inr otherBotPayload
                         else Inl ''Unexpected token''),
       runTask = (\<lambda>config params. None) \<rparr>"

definition exampleEvent :: "string \<Rightarrow> WebhookEvent" where
  "exampleEvent b =
     \<lparr> e_headers = [''x-hub-signature-256'' \<mapsto> ''sha256=00ff'', ''x-github-event'' \<mapsto> ''pull_request''],
       e_body = b \<rparr>"

definition emptyResult :: ReviewResult where
  "emptyResult =
     \<lparr> status = completed, summary = ''No issues'', findings = [],
       metadata = \<lparr> headCommit = ''abc1234'', filesReviewed = 1, skippedFiles = [],
                    reviewDurationMs = 10 \<rparr>,
       error = None \<rparr>"

text \<open>
  An output of the engine that is exactly a review result without findings, and the value
  that \<open>JSON.parse\<close> returns for it.  It satisfies \<open>ReviewResultSchema\<close> (a status of the
  enumeration, the summary, the array of findings and the four fields of the metadata),
  and the schema's \<open>parse\<close> returns \<open>emptyResult\<close> for it.
\<close>

definition exampleOutput :: string where
  \<open>exampleOutput =
     ''{"status":"completed","summary":"No issues","findings":[],''
       @ ''"metadata":{"headCommit":"abc1234","filesReviewed":1,''
       @ ''"skippedFiles":[],"reviewDurationMs":10}}''\<close>

definition exampleJson :: json where
  "exampleJson =
     JObject
       [(codeUnits ''status'', jsString ''completed''),
        (codeUnits ''summary'', jsString ''No issues''),
        (codeUnits ''findings'', JArray []),
        (codeUnits ''metadata'',
         JObject
           [(codeUnits ''headCommit'', jsString ''abc1234''),
            (codeUnits ''filesReviewed'', JNumber ''1''),
            (codeUnits ''skippedFiles'', JArray []),
            (codeUnits ''reviewDurationMs'', JNumber ''10'')])]"

text \<open>The same object with its members in another order; the schema accepts it as well.\<close>

definition reversedOutput :: string where
  \<open>reversedOutput =
     ''{"findings":[],"summary":"No issues","status":"completed",''
       @ ''"metadata":{"headCommit":"abc1234","filesReviewed":1,''
       @ ''"skippedFiles":[],"reviewDurationMs":10}}''\<close>

definition reversedJson :: json where
  "reversedJson =
     JObject
       [(codeUnits ''findings'', JArray []),
        (codeUnits ''summary'', jsString ''No issues''),
        (codeUnits ''status'', jsString ''completed''),
        (codeUnits ''metadata'',
         JObject
           [(codeUnits ''headCommit'', jsString ''abc1234''),
            (codeUnits ''filesReviewed'', JNumber ''1''),
            (codeUnits ''skippedFiles'', JArray []),
            (codeUnits ''reviewDurationMs'', JNumber ''10'')])]"

text \<open>The first output with prose around it, and braces in the prose.\<close>

definition proseOutput :: string where
  "proseOutput = ''I checked {src} first. '' @ exampleOutput @ '' Bye.''"

text \<open>
  \<open>JSON.parse\<close> with a stand-in for the message of the \<open>SyntaxError\<close>, whose text is the
  runtime's.  The schema library is not among the sources: \<open>exampleSchemaParse\<close> is the
  schema's \<open>parse\<close> at the value of \<open>exampleOutput\<close> and answers every other value with an
  error, whatever the schema says of it; the examples apply it to this value only.
\<close>

definition exampleJsonParse :: "string \<Rightarrow> string + json" where
  "exampleJsonParse s =
     (case JSON_parse s of
        None \<Rightarrow> Inl ''Unexpected token''
      | Some j \<Rightarrow> Inr j)"

definition exampleSchemaParse :: "json \<Rightarrow> string + ReviewResult" where
  "exampleSchemaParse j = (if j = exampleJson then Inr emptyResult else Inl ''Invalid input'')"









section \<open>Properties of the reconciliation\<close>

text \<open>The hash of a finding as a value, and the values that are hashes of the findings.\<close>

lemma jsString_inj: "jsString a = jsString b \<longleftrightarrow> a = b"
proof -
  have "inj (of_char :: char \<Rightarrow> nat)" by (rule injI) simp
  then show ?thesis by (auto simp: jsString_def codeUnits_def dest: inj_mapI [THEN injD])
qed

lemma jsString_not_null: "jsString a \<noteq> JNull"
  by (simp add: jsString_def)

lemma reconcileLoop_eq:
  "reconcileLoop H cs (fx, ps) =
     (fx @ map c_id (filter (\<lambda>c. c_hash c \<notin> H) (hashedComments cs)),
      ps @ map c_id (filter (\<lambda>c. c_hash c \<in> H) (hashedComments cs)))"
  by (induction cs arbitrary: fx ps) (auto simp: hashedComments_def)

lemma fixedCommentIds_eq:
  "fixedCommentIds (reconcileFindings fs cs) =
     map c_id (filter (\<lambda>c. c_hash c \<notin> (\<lambda>f. jsString (hash f)) ` set fs) (hashedComments cs))"
  by (simp add: reconcileFindings_def reconcileLoop_eq Let_def)

lemma persistingCommentIds_eq:
  "persistingCommentIds (reconcileFindings fs cs) =
     map c_id (filter (\<lambda>c. c_hash c \<in> (\<lambda>f. jsString (hash f)) ` set fs) (hashedComments cs))"
  by (simp add: reconcileFindings_def reconcileLoop_eq Let_def)

lemma existing_hash_set:
  "set (map c_hash (filter (\<lambda>c. c_hash c \<noteq> JNull) cs)) =
     {h. h \<noteq> JNull \<and> (\<exists>c \<in> set cs. c_hash c = h)}"
  by force

lemma newFindings_eq:
  "newFindings (reconcileFindings fs cs) =
     filter (\<lambda>f. \<forall>c \<in> set cs. c_hash c \<noteq> jsString (hash f)) fs"
proof -
  have "newFindings (reconcileFindings fs cs) =
      filter (\<lambda>f. jsString (hash f) \<notin> set (map c_hash (filter (\<lambda>c. c_hash c \<noteq> JNull) cs))) fs"
    by (simp add: reconcileFindings_def Let_def reconcileLoop_eq)
  also have "\<dots> = filter (\<lambda>f. \<forall>c \<in> set cs. c_hash c \<noteq> jsString (hash f)) fs"
    by (rule filter_cong) (force simp: jsString_def image_iff)+
  finally show ?thesis .
qed

lemma distinct_ids_member:
  assumes "distinct (map c_id xs)" and "c \<in> set xs"
  shows "c_id c \<in> c_id ` set (filter P xs) \<longleftrightarrow> P c"
proof
  assume "c_id c \<in> c_id ` set (filter P xs)"
  then obtain d where d: "d \<in> set xs" "P d" "c_id d = c_id c" by auto
  from assms d have "d = c" by (meson distinct_map inj_onD)
  with d show "P c" by simp
next
  assume "P c" with assms show "c_id c \<in> c_id ` set (filter P xs)" by auto
qed

lemma reconcile_ids_disjoint:
  assumes "distinct (map c_id (hashedComments cs))"
  shows "set (fixedCommentIds (reconcileFindings fs cs))
           \<inter> set (persistingCommentIds (reconcileFindings fs cs)) = {}"
proof (rule ccontr)
  let ?H = "(\<lambda>f. jsString (hash f)) ` set fs"
  let ?hc = "hashedComments cs"
  assume "\<not> ?thesis"
  then obtain i where i: "i \<in> c_id ` set (filter (\<lambda>c. c_hash c \<notin> ?H) ?hc)"
      "i \<in> c_id ` set (filter (\<lambda>c. c_hash c \<in> ?H) ?hc)"
    unfolding fixedCommentIds_eq persistingCommentIds_eq set_map by blast
  from i(1) obtain c where c: "c \<in> set ?hc" "c_hash c \<notin> ?H" "c_id c = i"
    by auto
  from i(2) c(3) have "c_id c \<in> c_id ` set (filter (\<lambda>c. c_hash c \<in> ?H) ?hc)"
    by simp
  with distinct_ids_member [OF assms c(1), of "\<lambda>c. c_hash c \<in> ?H"] c(2)
  show False by simp
qed

lemma reconcile_ids_exactly_one:
  assumes "distinct (map c_id (hashedComments cs))" and "c \<in> set cs" and "c_hash c \<noteq> JNull"
  shows "(c_id c \<in> set (persistingCommentIds (reconcileFindings fs cs))
            \<longleftrightarrow> c_hash c \<in> (\<lambda>f. jsString (hash f)) ` set fs)
       \<and> (c_id c \<in> set (fixedCommentIds (reconcileFindings fs cs))
            \<longleftrightarrow> c_hash c \<notin> (\<lambda>f. jsString (hash f)) ` set fs)"
proof -
  let ?H = "(\<lambda>f. jsString (hash f)) ` set fs"
  let ?hc = "hashedComments cs"
  from assms(2,3) have c: "c \<in> set ?hc"
    by (simp_all add: hashedComments_def)
  have "(c_id c \<in> c_id ` set (filter (\<lambda>c. c_hash c \<in> ?H) ?hc)) \<longleftrightarrow> c_hash c \<in> ?H"
    using distinct_ids_member [OF assms(1) c, of "\<lambda>c. c_hash c \<in> ?H"] by simp
  moreover have "(c_id c \<in> c_id ` set (filter (\<lambda>c. c_hash c \<notin> ?H) ?hc)) \<longleftrightarrow> c_hash c \<notin> ?H"
    using distinct_ids_member [OF assms(1) c, of "\<lambda>c. c_hash c \<notin> ?H"] by simp
  ultimately show ?thesis
    unfolding fixedCommentIds_eq persistingCommentIds_eq set_map by blast
qed

lemma newFindings_hashes_fresh:
  "(\<lambda>f. jsString (hash f)) ` set (newFindings (reconcileFindings fs cs))
     \<inter> c_hash ` set cs = {}"
  unfolding newFindings_eq by auto

lemma string_hash_occurs:
  "jsString h \<in> (\<lambda>f. jsString (hash f)) ` set fs \<longleftrightarrow> h \<in> hash ` set fs"
  by (auto simp: jsString_inj)

text \<open>
  Claim C1 (as amended).  For every pair of inputs in which the existing comments that
  carry a non-null hash have pairwise distinct ids: \<open>fixedCommentIds\<close> and
  \<open>persistingCommentIds\<close> have no id in common; the id of every existing comment with a
  non-null hash is in exactly one of them, in \<open>persistingCommentIds\<close> iff its hash occurs
  among the hashes of the current findings (so for a comment whose hash is the string
  \<open>h\<close>, iff \<open>h\<close> is the hash of a current finding, and never for a comment whose hash is
  not a string); \<open>newFindings\<close> is exactly the sublist of the current findings whose hash
  occurs in no existing comment, so that no hash of a new finding is the hash of a comment
  in either id list.
\<close>

theorem reconcile_partition:
  "distinct (map c_id (hashedComments cs)) \<Longrightarrow>
     set (fixedCommentIds (reconcileFindings fs cs))
         \<inter> set (persistingCommentIds (reconcileFindings fs cs)) = {}
     \<and> (\<forall>c \<in> set cs. c_hash c \<noteq> JNull \<longrightarrow>
           (c_id c \<in> set (persistingCommentIds (reconcileFindings fs cs))
              \<longleftrightarrow> c_hash c \<in> (\<lambda>f. jsString (hash f)) ` set fs)
         \<and> (c_id c \<in> set (fixedCommentIds (reconcileFindings fs cs))
              \<longleftrightarrow> c_hash c \<notin> (\<lambda>f. jsString (hash f)) ` set fs))
     \<and> (\<forall>c \<in> set cs. \<forall>h. c_hash c = jsString h \<longrightarrow>
           (c_id c \<in> set (persistingCommentIds (reconcileFindings fs cs)) \<longleftrightarrow> h \<in> hash ` set fs)
         \<and> (c_id c \<in> set (fixedCommentIds (reconcileFindings fs cs)) \<longleftrightarrow> h \<notin> hash ` set fs))
     \<and> newFindings (reconcileFindings fs cs) =
           filter (\<lambda>f. \<forall>c \<in> set cs. c_hash c \<noteq> jsString (hash f)) fs
     \<and> (\<lambda>f. jsString (hash f)) ` set (newFindings (reconcileFindings fs cs))
           \<inter> c_hash ` set cs = {}"
proof -
  assume d: "distinct (map c_id (hashedComments cs))"
  have one: "\<And>c. c \<in> set cs \<Longrightarrow> c_hash c \<noteq> JNull \<Longrightarrow>
      (c_id c \<in> set (persistingCommentIds (reconcileFindings fs cs))
              \<longleftrightarrow> c_hash c \<in> (\<lambda>f. jsString (hash f)) ` set fs)
         \<and> (c_id c \<in> set (fixedCommentIds (reconcileFindings fs cs))
              \<longleftrightarrow> c_hash c \<notin> (\<lambda>f. jsString (hash f)) ` set fs)"
    by (rule reconcile_ids_exactly_one [OF d])
  have str: "\<And>c h. c \<in> set cs \<Longrightarrow> c_hash c = jsString h \<Longrightarrow>
      (c_id c \<in> set (persistingCommentIds (reconcileFindings fs cs)) \<longleftrightarrow> h \<in> hash ` set fs)
         \<and> (c_id c \<in> set (fixedCommentIds (reconcileFindings fs cs)) \<longleftrightarrow> h \<notin> hash ` set fs)"
  proof -
    fix c h assume c: "c \<in> set cs" "c_hash c = jsString h"
    then have "c_hash c \<noteq> JNull" by (simp add: jsString_not_null)
    from one [OF c(1) this] show "(c_id c \<in> set (persistingCommentIds (reconcileFindings fs cs)) \<longleftrightarrow> h \<in> hash ` set fs)
         \<and> (c_id c \<in> set (fixedCommentIds (reconcileFindings fs cs)) \<longleftrightarrow> h \<notin> hash ` set fs)"
      unfolding c(2) string_hash_occurs .
  qed
  from reconcile_ids_disjoint [OF d, of fs] one str newFindings_eq [of fs cs]
    newFindings_hashes_fresh [of fs cs]
  show ?thesis by blast
qed

theorem reconcile_partition_witness:
  "distinct (map c_id (hashedComments exampleComments))
   \<and> fixedCommentIds (reconcileFindings [sqlFinding, nullFinding] exampleComments) = [102]
   \<and> persistingCommentIds (reconcileFindings [sqlFinding, nullFinding] exampleComments) = [101]
   \<and> newFindings (reconcileFindings [sqlFinding, nullFinding] exampleComments) = [nullFinding]
   \<and> set (fixedCommentIds (reconcileFindings [sqlFinding, nullFinding] exampleComments))
         \<inter> set (persistingCommentIds (reconcileFindings [sqlFinding, nullFinding] exampleComments)) = {}"
proof -
  have d: "distinct (map c_id (hashedComments exampleComments))"
    by (simp add: exampleComments_def hashedComments_def jsString_def)
  have v: "fixedCommentIds (reconcileFindings [sqlFinding, nullFinding] exampleComments) = [102]
      \<and> persistingCommentIds (reconcileFindings [sqlFinding, nullFinding] exampleComments) = [101]
      \<and> newFindings (reconcileFindings [sqlFinding, nullFinding] exampleComments) = [nullFinding]"
    by code_simp
  from reconcile_partition [OF d, of "[sqlFinding, nullFinding]"]
  have i: "set (fixedCommentIds (reconcileFindings [sqlFinding, nullFinding] exampleComments))
         \<inter> set (persistingCommentIds (reconcileFindings [sqlFinding, nullFinding] exampleComments)) = {}"
    by (rule conjunct1)
  from d v i show ?thesis by (elim conjE, intro conjI) assumption+
qed

text \<open>
  The claim as written fails when two comments that carry a hash share an id: the id is
  then in both lists.
\<close>

theorem reconcile_duplicate_id_counterexample:
  "fixedCommentIds (reconcileFindings [sqlFinding]
       [\<lparr>c_id = 1, c_body = '''', c_path = ''a.ts'', c_line = 1, c_hash = jsString ''a1b2c3d4e5f6''\<rparr>,
        \<lparr>c_id = 1, c_body = '''', c_path = ''a.ts'', c_line = 9, c_hash = jsString ''ffffffff''\<rparr>]) = [1]
   \<and> persistingCommentIds (reconcileFindings [sqlFinding]
       [\<lparr>c_id = 1, c_body = '''', c_path = ''a.ts'', c_line = 1, c_hash = jsString ''a1b2c3d4e5f6''\<rparr>,
        \<lparr>c_id = 1, c_body = '''', c_path = ''a.ts'', c_line = 9, c_hash = jsString ''ffffffff''\<rparr>]) = [1]"
  by code_simp

section \<open>Properties of the finding hash\<close>

lemma toInt32_range: "- (2 ^ 31) \<le> toInt32 x \<and> toInt32 x < 2 ^ 31"
proof -
  have "0 \<le> (x + 2147483648) mod (4294967296 :: int)" "(x + 2147483648) mod (4294967296 :: int) < 4294967296"
    by simp_all
  then show ?thesis by (simp add: toInt32_def)
qed

lemma hashLoop_range:
  "- (2 ^ 31) \<le> h \<Longrightarrow> h < 2 ^ 31 \<Longrightarrow> - (2 ^ 31) \<le> hashLoop h s \<and> hashLoop h s < 2 ^ 31"
proof (induction s arbitrary: h)
  case Nil
  then show ?case by simp
next
  case (Cons c cs)
  have "- (2 ^ 31) \<le> hashLoop (toInt32 (toInt32 (h * 32) - h + int (of_char c))) cs
      \<and> hashLoop (toInt32 (toInt32 (h * 32) - h + int (of_char c))) cs < 2 ^ 31"
    using toInt32_range by (intro Cons.IH) blast+
  then show ?case by simp
qed

lemma digitChar_hex: "d < 16 \<Longrightarrow> digitChar d \<in> set ''0123456789abcdef''"
  unfolding digitChar_def by (rule nth_mem) simp

lemma toRadix16_chars: "0 \<le> n \<Longrightarrow> set (toRadix 16 n) \<subseteq> set ''0123456789abcdef''"
proof (induction "16 :: int" n rule: toRadix.induct)
  case (1 n)
  show ?case
  proof (cases "n < 16")
    case True
    with 1(2) have "nat n < 16" by simp
    then have "digitChar (nat n) \<in> set ''0123456789abcdef''" by (rule digitChar_hex)
    with True show ?thesis by (subst toRadix.simps) simp
  next
    case False
    with 1 have ih: "set (toRadix 16 (n div 16)) \<subseteq> set ''0123456789abcdef''" by simp
    have "nat (n mod 16) < 16" by simp
    then have "digitChar (nat (n mod 16)) \<in> set ''0123456789abcdef''" by (rule digitChar_hex)
    with ih False show ?thesis by (subst toRadix.simps) simp
  qed
qed

lemma toRadix16_length: "0 \<le> n \<Longrightarrow> n < 16 ^ Suc k \<Longrightarrow> length (toRadix 16 n) \<le> Suc k"
proof (induction k arbitrary: n)
  case 0
  then show ?case by (subst toRadix.simps) simp
next
  case (Suc k)
  show ?case
  proof (cases "n < 16")
    case True
    then show ?thesis by (subst toRadix.simps) simp
  next
    case False
    from Suc.prems have "n div 16 < 16 ^ Suc k" by simp
    moreover from Suc.prems have "0 \<le> n div 16" by simp
    ultimately have "length (toRadix 16 (n div 16)) \<le> Suc k" by (rule Suc.IH [rotated])
    with False show ?thesis by (subst toRadix.simps) simp
  qed
qed

lemma padStart_length: "length s \<le> w \<Longrightarrow> length (padStart w c s) = w"
  by (simp add: padStart_def)

lemma padStart_set: "set (padStart w c s) \<subseteq> insert c (set s)"
  by (auto simp: padStart_def)

lemma hash_magnitude: "\<bar>hashLoop 0 s\<bar> < 16 ^ 8"
proof -
  have "- (2 ^ 31) \<le> hashLoop 0 s \<and> hashLoop 0 s < 2 ^ 31"
    by (rule hashLoop_range) simp_all
  then show ?thesis by (simp add: abs_less_iff)
qed

text \<open>
  Claim C9.  For every input quadruple \<open>generateHash\<close> returns a string of exactly 8
  characters, each a lower-case hexadecimal digit: the absolute value of the accumulated
  signed 32-bit hash is below \<open>16 ^ 8\<close>, so its hexadecimal numeral has at most 8 digits,
  and \<open>padStart\<close> fills it up to width 8.
\<close>

theorem generateHash_eight_hex_digits:
  "length (generateHash f ln e t) = 8
   \<and> set (generateHash f ln e t) \<subseteq> set ''0123456789abcdef''
   \<and> \<bar>hashLoop 0 (hashInput f ln e t)\<bar> < 16 ^ 8
   \<and> length (toRadix 16 \<bar>hashLoop 0 (hashInput f ln e t)\<bar>) \<le> 8"
proof -
  let ?h = "\<bar>hashLoop 0 (hashInput f ln e t)\<bar>"
  have m: "?h < 16 ^ 8" by (rule hash_magnitude)
  have len: "length (toRadix 16 ?h) \<le> 8"
    using toRadix16_length [of ?h 7] m by simp
  have chars: "set (toRadix 16 ?h) \<subseteq> set ''0123456789abcdef''"
    by (rule toRadix16_chars) simp
  have "length (generateHash f ln e t) = 8"
    unfolding generateHash_def using len by (rule padStart_length)
  moreover have "set (generateHash f ln e t) \<subseteq> set ''0123456789abcdef''"
  proof -
    have z: "CHR ''0'' \<in> set ''0123456789abcdef''" by simp
    have "insert CHR ''0'' (set (toRadix 16 ?h)) \<subseteq> set ''0123456789abcdef''"
      using z chars by (rule insert_subsetI)
    with padStart_set [of 8 "CHR ''0''" "toRadix 16 ?h"] show ?thesis
      unfolding generateHash_def by (rule subset_trans)
  qed
  ultimately show ?thesis using m len by blast
qed






section \<open>Properties of the webhook dispatcher\<close>

lemma shouldTriggerReview_iff:
  "shouldTriggerReview p \<longleftrightarrow>
     ((p_action p = ''review_requested''
         \<and> (case requested_reviewer p of Some r \<Rightarrow> r_type r = ''Bot'' | None \<Rightarrow> False))
      \<or> p_action p = ''ready_for_review'')
     \<and> pr_state (pull_request p) = ''open''
     \<and> \<not> pr_draft (pull_request p)"
  unfolding shouldTriggerReview_def Let_def
  by (cases "requested_reviewer p") auto

text \<open>
  Claim C8 (as amended).  The trigger filter accepts a pull-request payload iff the action
  is \<open>review_requested\<close> with a requested reviewer whose account type is \<open>Bot\<close>, or the
  action is \<open>ready_for_review\<close>, and in both cases the pull request is open and not a
  draft.  The login of the requested reviewer is not read: replacing it by any other login
  does not change the answer, so a review requested from any bot account is accepted.  For
  an authenticated pull-request event the handler launches a task only when the filter
  accepts, and answers every other payload with the 200 no-op without launching anything.
\<close>

theorem trigger_filter:
  "(shouldTriggerReview p \<longleftrightarrow>
      ((p_action p = ''review_requested''
          \<and> (case requested_reviewer p of Some r \<Rightarrow> r_type r = ''Bot'' | None \<Rightarrow> False))
       \<or> p_action p = ''ready_for_review'')
      \<and> pr_state (pull_request p) = ''open''
      \<and> \<not> pr_draft (pull_request p))
   \<and> (requested_reviewer p = Some r \<longrightarrow>
        shouldTriggerReview (p\<lparr>requested_reviewer := Some (r\<lparr>r_login := l\<rparr>)\<rparr>)
          = shouldTriggerReview p)
   \<and> (getConfig env = Inr config
        \<and> e_headers event ''x-hub-signature-256'' = Some signature \<and> signature \<noteq> ''''
        \<and> verifySignature (hmacHex env) (e_body event) signature (webhookSecret config) = Inr True
        \<and> e_headers event ''x-github-event'' = Some ''pull_request''
        \<and> parseBody env (e_body event) = Inr p
      \<longrightarrow> (\<not> shouldTriggerReview p \<longrightarrow>
             handler env event =
               (\<lparr>statusCode = 200, r_body = ''No review needed for this action''\<rparr>, []))
        \<and> (snd (handler env event) \<noteq> [] \<longrightarrow> shouldTriggerReview p)
        \<and> (shouldTriggerReview p \<and> installation p = Some i \<and> i \<noteq> 0
             \<and> runTask env config
                  \<lparr> t_owner = owner_login (repository p), t_repo = repo_name (repository p),
                    t_prNumber = p_number p, t_installationId = i \<rparr> = None
            \<longrightarrow> handler env event =
                  (\<lparr>statusCode = 202, r_body = ''Review task spawned''\<rparr>,
                   [\<lparr> t_owner = owner_login (repository p), t_repo = repo_name (repository p),
                      t_prNumber = p_number p, t_installationId = i \<rparr>])))"
proof (intro conjI impI)
  show "shouldTriggerReview p \<longleftrightarrow>
      ((p_action p = ''review_requested''
          \<and> (case requested_reviewer p of Some r \<Rightarrow> r_type r = ''Bot'' | None \<Rightarrow> False))
       \<or> p_action p = ''ready_for_review'')
      \<and> pr_state (pull_request p) = ''open''
      \<and> \<not> pr_draft (pull_request p)"
    by (rule shouldTriggerReview_iff)
next
  assume "requested_reviewer p = Some r"
  then show "shouldTriggerReview (p\<lparr>requested_reviewer := Some (r\<lparr>r_login := l\<rparr>)\<rparr>)
      = shouldTriggerReview p"
    by (simp add: shouldTriggerReview_iff)
next
  assume "getConfig env = Inr config
        \<and> e_headers event ''x-hub-signature-256'' = Some signature \<and> signature \<noteq> ''''
        \<and> verifySignature (hmacHex env) (e_body event) signature (webhookSecret config) = Inr True
        \<and> e_headers event ''x-github-event'' = Some ''pull_request''
        \<and> parseBody env (e_body event) = Inr p"
    and "\<not> shouldTriggerReview p"
  then show "handler env event =
      (\<lparr>statusCode = 200, r_body = ''No review needed for this action''\<rparr>, [])"
    by (simp add: handler_def)
next
  assume a: "getConfig env = Inr config
        \<and> e_headers event ''x-hub-signature-256'' = Some signature \<and> signature \<noteq> ''''
        \<and> verifySignature (hmacHex env) (e_body event) signature (webhookSecret config) = Inr True
        \<and> e_headers event ''x-github-event'' = Some ''pull_request''
        \<and> parseBody env (e_body event) = Inr p"
    and b: "snd (handler env event) \<noteq> []"
  show "shouldTriggerReview p"
  proof (rule ccontr)
    assume "\<not> shouldTriggerReview p"
    with a have "handler env event =
        (\<lparr>statusCode = 200, r_body = ''No review needed for this action''\<rparr>, [])"
      by (simp add: handler_def)
    with b show False by simp
  qed
next
  assume "getConfig env = Inr config
        \<and> e_headers event ''x-hub-signature-256'' = Some signature \<and> signature \<noteq> ''''
        \<and> verifySignature (hmacHex env) (e_body event) signature (webhookSecret config) = Inr True
        \<and> e_headers event ''x-github-event'' = Some ''pull_request''
        \<and> parseBody env (e_body event) = Inr p"
    and "shouldTriggerReview p \<and> installation p = Some i \<and> i \<noteq> 0
             \<and> runTask env config
                  \<lparr> t_owner = owner_login (repository p), t_repo = repo_name (repository p),
                    t_prNumber = p_number p, t_installationId = i \<rparr> = None"
  then show "handler env event =
                  (\<lparr>statusCode = 202, r_body = ''Review task spawned''\<rparr>,
                   [\<lparr> t_owner = owner_login (repository p), t_repo = repo_name (repository p),
                      t_prNumber = p_number p, t_installationId = i \<rparr>])"
    by (simp add: handler_def)
qed

theorem trigger_filter_witness:
  "shouldTriggerReview reviewRequestedPayload
   \<and> handler exampleDispatcherEnv (exampleEvent ''requested'') =
       (\<lparr>statusCode = 202, r_body = ''Review task spawned''\<rparr>,
        [\<lparr> t_owner = ''env0'', t_repo = ''demo'', t_prNumber = 17, t_installationId = 4242 \<rparr>])
   \<and> \<not> shouldTriggerReview (reviewRequestedPayload\<lparr>p_action := ''opened''\<rparr>)
   \<and> handler exampleDispatcherEnv (exampleEvent ''opened'') =
       (\<lparr>statusCode = 200, r_body = ''No review needed for this action''\<rparr>, [])
   \<and> requested_reviewer reviewRequestedPayload
       = Some \<lparr> r_login = ''claude-pr-reviewer[bot]'', r_type = ''Bot'' \<rparr>
   \<and> shouldTriggerReview
         (reviewRequestedPayload\<lparr>requested_reviewer :=
            Some (\<lparr> r_login = ''claude-pr-reviewer[bot]'', r_type = ''Bot'' \<rparr>
                    \<lparr>r_login := ''octocat''\<rparr>)\<rparr>)"
proof -
  let ?q = "reviewRequestedPayload\<lparr>p_action := ''opened''\<rparr>"
  have sig: "verifySignature (hmacHex exampleDispatcherEnv) b ''sha256=00ff''
      (webhookSecret exampleConfig) = Inr True" for b
    by (simp add: verifySignature_def exampleDispatcherEnv_def timingSafeEqual_def)
  have pre: "getConfig exampleDispatcherEnv = Inr exampleConfig
      \<and> e_headers (exampleEvent b) ''x-hub-signature-256'' = Some ''sha256=00ff''
      \<and> ''sha256=00ff'' \<noteq> ''''
      \<and> verifySignature (hmacHex exampleDispatcherEnv) (e_body (exampleEvent b)) ''sha256=00ff''
          (webhookSecret exampleConfig) = Inr True
      \<and> e_headers (exampleEvent b) ''x-github-event'' = Some ''pull_request''" for b
    using sig by (simp add: exampleDispatcherEnv_def exampleEvent_def)
  have p1: "parseBody exampleDispatcherEnv (e_body (exampleEvent ''requested'')) = Inr reviewRequestedPayload"
    by (simp add: exampleDispatcherEnv_def exampleEvent_def)
  have p2: "parseBody exampleDispatcherEnv (e_body (exampleEvent ''opened'')) = Inr ?q"
    by (simp add: exampleDispatcherEnv_def exampleEvent_def)
  have yes: "shouldTriggerReview reviewRequestedPayload"
    by (simp add: shouldTriggerReview_def reviewRequestedPayload_def)
  have no: "\<not> shouldTriggerReview ?q"
    by (simp add: shouldTriggerReview_def reviewRequestedPayload_def)
  have inst: "installation reviewRequestedPayload = Some 4242 \<and> (4242 :: int) \<noteq> 0"
    by (simp add: reviewRequestedPayload_def)
  have run: "runTask exampleDispatcherEnv exampleConfig t = None" for t
    by (simp add: exampleDispatcherEnv_def)
  from trigger_filter [where p = reviewRequestedPayload and env = exampleDispatcherEnv
      and config = exampleConfig and event = "exampleEvent ''requested''"
      and signature = "''sha256=00ff''" and i = 4242] pre p1 yes inst run
  have a: "handler exampleDispatcherEnv (exampleEvent ''requested'') =
      (\<lparr>statusCode = 202, r_body = ''Review task spawned''\<rparr>,
       [\<lparr> t_owner = owner_login (repository reviewRequestedPayload),
          t_repo = repo_name (repository reviewRequestedPayload),
          t_prNumber = p_number reviewRequestedPayload, t_installationId = 4242 \<rparr>])"
    by blast
  from trigger_filter [where p = ?q and env = exampleDispatcherEnv
      and config = exampleConfig and event = "exampleEvent ''opened''"
      and signature = "''sha256=00ff''" and i = 4242] pre p2 no
  have b: "handler exampleDispatcherEnv (exampleEvent ''opened'') =
      (\<lparr>statusCode = 200, r_body = ''No review needed for this action''\<rparr>, [])"
    by blast
  have rr: "requested_reviewer reviewRequestedPayload
       = Some \<lparr> r_login = ''claude-pr-reviewer[bot]'', r_type = ''Bot'' \<rparr>"
    by (simp add: reviewRequestedPayload_def)
  from trigger_filter [where p = reviewRequestedPayload
      and r = "\<lparr> r_login = ''claude-pr-reviewer[bot]'', r_type = ''Bot'' \<rparr>"
      and l = "''octocat''"] rr yes
  have c: "shouldTriggerReview
         (reviewRequestedPayload\<lparr>requested_reviewer :=
            Some (\<lparr> r_login = ''claude-pr-reviewer[bot]'', r_type = ''Bot'' \<rparr>
                    \<lparr>r_login := ''octocat''\<rparr>)\<rparr>)"
    by blast
  from a b have ab: "handler exampleDispatcherEnv (exampleEvent ''requested'') =
       (\<lparr>statusCode = 202, r_body = ''Review task spawned''\<rparr>,
        [\<lparr> t_owner = ''env0'', t_repo = ''demo'', t_prNumber = 17, t_installationId = 4242 \<rparr>])
     \<and> handler exampleDispatcherEnv (exampleEvent ''opened'') =
       (\<lparr>statusCode = 200, r_body = ''No review needed for this action''\<rparr>, [])"
    by (simp add: reviewRequestedPayload_def)
  from ab yes no rr c show ?thesis by (elim conjE, intro conjI) assumption+
qed

text \<open>
  The claim as written fails for a review requested from another bot.  The two payloads
  below differ in the login of the requested reviewer only, and both are accepted and
  dispatched: whichever login the bot has, one of them requests another reviewer.
\<close>

theorem trigger_other_bot_counterexample:
  "map_option r_login (requested_reviewer reviewRequestedPayload) = Some ''claude-pr-reviewer[bot]''
   \<and> map_option r_login (requested_reviewer otherBotPayload) = Some ''dependabot[bot]''
   \<and> otherBotPayload = reviewRequestedPayload
        \<lparr>requested_reviewer := Some \<lparr> r_login = ''dependabot[bot]'', r_type = ''Bot'' \<rparr>\<rparr>
   \<and> shouldTriggerReview reviewRequestedPayload
   \<and> shouldTriggerReview otherBotPayload
   \<and> handler exampleDispatcherEnv (exampleEvent ''requested'') =
       (\<lparr>statusCode = 202, r_body = ''Review task spawned''\<rparr>,
        [\<lparr> t_owner = ''env0'', t_repo = ''demo'', t_prNumber = 17, t_installationId = 4242 \<rparr>])
   \<and> handler exampleDispatcherEnv (exampleEvent ''other-bot'') =
       (\<lparr>statusCode = 202, r_body = ''Review task spawned''\<rparr>,
        [\<lparr> t_owner = ''env0'', t_repo = ''demo'', t_prNumber = 17, t_installationId = 4242 \<rparr>])"
  by code_simp

lemma utf8Char_eq:
  "utf8Char c =
     (if (of_char c :: nat) < 128 then [of_char c]
      else [192 + of_char c div 64, 128 + of_char c mod 64])"
  by (simp add: utf8Char_def Let_def)

lemma utf8Char_cancel:
  assumes "utf8Char x @ r = utf8Char y @ s"
  shows "x = y \<and> r = s"
proof -
  define n where "n = (of_char x :: nat)"
  define m where "m = (of_char y :: nat)"
  from assms have e: "(if n < 128 then [n] else [192 + n div 64, 128 + n mod 64]) @ r
      = (if m < 128 then [m] else [192 + m div 64, 128 + m mod 64]) @ s"
    by (simp only: utf8Char_eq n_def m_def)
  have "n = m \<and> r = s"
  proof (cases "n < 128"; cases "m < 128")
    assume "n < 128" "m < 128"
    with e show ?thesis by simp
  next
    assume "n < 128" "\<not> m < 128"
    with e have "n = 192 + m div 64" by simp
    with \<open>n < 128\<close> show ?thesis by simp
  next
    assume "\<not> n < 128" "m < 128"
    with e have "m = 192 + n div 64" by simp
    with \<open>m < 128\<close> show ?thesis by simp
  next
    assume "\<not> n < 128" "\<not> m < 128"
    with e have "n div 64 = m div 64" "n mod 64 = m mod 64" "r = s"
      by simp_all
    moreover have "n = 64 * (n div 64) + n mod 64" "m = 64 * (m div 64) + m mod 64" by simp_all
    ultimately show ?thesis by metis
  qed
  then show ?thesis by (simp add: n_def m_def)
qed

lemma Buffer_from_Cons: "Buffer_from (c # cs) = utf8Char c @ Buffer_from cs"
  by (simp add: Buffer_from_def)

lemma Buffer_from_inj: "Buffer_from a = Buffer_from b \<Longrightarrow> a = b"
proof (induction a arbitrary: b)
  case Nil
  show ?case
  proof (cases b)
    case Nil
    then show ?thesis by simp
  next
    case (Cons y ys)
    with Nil have "utf8Char y @ Buffer_from ys = []" by (simp add: Buffer_from_def)
    then show ?thesis by (simp add: utf8Char_eq split: if_splits)
  qed
next
  case (Cons x xs)
  show ?case
  proof (cases b)
    case Nil
    with Cons.prems have "utf8Char x @ Buffer_from xs = []" by (simp add: Buffer_from_def)
    then show ?thesis by (simp add: utf8Char_eq split: if_splits)
  next
    case (Cons y ys)
    with Cons.prems have "utf8Char x @ Buffer_from xs = utf8Char y @ Buffer_from ys"
      by (simp only: Buffer_from_Cons)
    then have "x = y \<and> Buffer_from xs = Buffer_from ys" by (rule utf8Char_cancel)
    with Cons.IH Cons show ?thesis by simp
  qed
qed

text \<open>
  Claim C10.  \<open>verifySignature\<close> returns a boolean for every payload, signature and
  secret, and no exception leaves it: the result is true exactly when the signature is
  the expected \<open>sha256=<hex>\<close> string, and false otherwise; in particular a signature of
  a different byte length, on which the constant-time comparison throws, gives false.
\<close>

theorem verifySignature_total:
  "verifySignature hm payload signature secret
     = Inr (signature = ''sha256='' @ hm secret payload)
   \<and> (length (Buffer_from signature) \<noteq> length (Buffer_from (''sha256='' @ hm secret payload))
        \<longrightarrow> timingSafeEqual (Buffer_from signature) (Buffer_from (''sha256='' @ hm secret payload))
              = Inl ''Input buffers must have the same byte length''
          \<and> verifySignature hm payload signature secret = Inr False)"
proof -
  let ?e = "''sha256='' @ hm secret payload"
  have "(Buffer_from signature = Buffer_from ?e) = (signature = ?e)"
    using Buffer_from_inj by blast
  moreover have "length (Buffer_from signature) \<noteq> length (Buffer_from ?e) \<Longrightarrow> signature \<noteq> ?e"
    by auto
  ultimately show ?thesis
    unfolding verifySignature_def timingSafeEqual_def Let_def by auto
qed

theorem verifySignature_total_witness:
  "length (Buffer_from ''sha256=0'') \<noteq> length (Buffer_from (''sha256='' @ ''00ff''))
   \<and> verifySignature (\<lambda>secret payload. ''00ff'') ''{}'' ''sha256=0'' ''s3cret'' = Inr False
   \<and> verifySignature (\<lambda>secret payload. ''00ff'') ''{}'' ''sha256=00fe'' ''s3cret'' = Inr False
   \<and> verifySignature (\<lambda>secret payload. ''00ff'') ''{}'' ''sha256=00ff'' ''s3cret'' = Inr True"
proof -
  have l: "length (Buffer_from ''sha256=0'') \<noteq> length (Buffer_from (''sha256='' @ ''00ff''))"
    by (simp add: Buffer_from_def utf8Char_def)
  from verifySignature_total [of "\<lambda>secret payload. ''00ff''" "''{}''" "''sha256=0''" "''s3cret''"] l
  have a: "verifySignature (\<lambda>secret payload. ''00ff'') ''{}'' ''sha256=0'' ''s3cret'' = Inr False"
    by blast
  from verifySignature_total [of "\<lambda>secret payload. ''00ff''" "''{}''" "''sha256=00fe''" "''s3cret''"]
  have b: "verifySignature (\<lambda>secret payload. ''00ff'') ''{}'' ''sha256=00fe'' ''s3cret'' = Inr False"
    by simp
  from verifySignature_total [of "\<lambda>secret payload. ''00ff''" "''{}''" "''sha256=00ff''" "''s3cret''"]
  have c: "verifySignature (\<lambda>secret payload. ''00ff'') ''{}'' ''sha256=00ff'' ''s3cret'' = Inr True"
    by simp
  from l a b c show ?thesis by blast
qed

section \<open>Properties of the pattern matcher\<close>

lemma matchHere_sound:
  "matchHere rs s = Some ps \<Longrightarrow>
     list_all2 pieceOk rs ps \<and> take (length (concat ps)) s = concat ps"
proof (induction rs s arbitrary: ps rule: matchHere.induct)
  case (1 s)
  then show ?case by simp
next
  case (2 l rs s)
  from "2.prems" have pre: "take (length l) s = l"
    by (simp split: if_splits)
  with "2.prems" obtain qs where qs: "matchHere rs (drop (length l) s) = Some qs" "ps = l # qs"
    by (auto split: if_splits)
  from "2.IH" [OF pre qs(1)] have ih: "list_all2 pieceOk rs qs"
      "take (length (concat qs)) (drop (length l) s) = concat qs" by simp_all
  have "take (length l + length (concat qs)) s = l @ concat qs"
    using pre ih(2) by (simp add: take_add)
  with ih(1) qs(2) show ?case by simp
next
  case (3 rs)
  then obtain qs where qs: "matchHere rs [] = Some qs" "ps = [] # qs" by auto
  from "3.IH" [OF qs(1)] qs(2) show ?case by simp
next
  case (4 rs c cs)
  show ?case
  proof (cases "matchHere (AnyStar # rs) cs")
    case None
    with "4.prems" obtain qs where qs: "matchHere rs (c # cs) = Some qs" "ps = [] # qs"
      by auto
    from "4.IH"(2) [OF _ qs(1)] None have "list_all2 pieceOk rs qs
        \<and> take (length (concat qs)) (c # cs) = concat qs" by simp
    with qs(2) show ?thesis by simp
  next
    case (Some r)
    from "4.IH"(1) [OF Some] have r: "list_all2 pieceOk (AnyStar # rs) r
        \<and> take (length (concat r)) cs = concat r" .
    then obtain p qs where pq: "r = p # qs" by (cases r) auto
    with Some "4.prems" have ps: "ps = (c # p) # qs" by simp
    with r pq show ?thesis by simp
  qed
next
  case (5 rs)
  then obtain qs where qs: "matchHere rs [] = Some qs" "ps = [] # qs" by auto
  from "5.IH" [OF qs(1)] qs(2) show ?case by simp
next
  case (6 rs c cs)
  show ?case
  proof (cases "matchHere rs (c # cs)")
    case (Some qs)
    with "6.prems" have "ps = [] # qs" by simp
    with "6.IH"(1) [OF Some] show ?thesis by simp
  next
    case None
    with "6.prems" have nt: "\<not> isLineTerminator c" by (auto split: if_splits)
    with None "6.prems" obtain r where r: "matchHere (DotLazy # rs) cs = Some r"
      by (auto split: option.splits)
    from "6.IH"(2) [OF None nt r] have ih: "list_all2 pieceOk (DotLazy # rs) r
        \<and> take (length (concat r)) cs = concat r" .
    then obtain p qs where pq: "r = p # qs" by (cases r) auto
    with None nt r "6.prems" have ps: "ps = (c # p) # qs" by simp
    with ih pq nt show ?thesis by simp
  qed
qed

lemma matchHere_length: "matchHere rs s = Some ps \<Longrightarrow> length ps = length rs"
  using matchHere_sound [of rs s ps] by (auto dest: list_all2_lengthD)

lemma matchHere_Cons_result:
  "matchHere (r # rs) s = Some x \<Longrightarrow> \<exists>y ys. x = y # ys"
  using matchHere_length [of "r # rs" s x] by (cases x) auto

lemma anystar_zero:
  assumes "matchHere rs t \<noteq> None"
  shows "matchHere (AnyStar # rs) t \<noteq> None"
proof (cases t)
  case Nil
  with assms show ?thesis by auto
next
  case (Cons c cs)
  show ?thesis
  proof (cases "matchHere (AnyStar # rs) cs")
    case None
    with assms Cons show ?thesis by auto
  next
    case (Some x)
    from matchHere_Cons_result [OF Some] obtain y ys where "x = y # ys" by blast
    with Some Cons show ?thesis by simp
  qed
qed

lemma anystar_extend:
  assumes "matchHere (AnyStar # rs) t \<noteq> None"
  shows "matchHere (AnyStar # rs) (p @ t) \<noteq> None"
proof (induction p)
  case Nil
  with assms show ?case by simp
next
  case (Cons c p)
  then obtain x where x: "matchHere (AnyStar # rs) (p @ t) = Some x" by auto
  from matchHere_Cons_result [OF x] obtain y ys where "x = y # ys" by blast
  with x show ?case by simp
qed

lemma dotlazy_zero:
  assumes "matchHere rs t \<noteq> None"
  shows "matchHere (DotLazy # rs) t \<noteq> None"
  using assms by (cases t) auto

lemma dotlazy_extend:
  assumes "matchHere (DotLazy # rs) t \<noteq> None" and "\<not> list_ex isLineTerminator p"
  shows "matchHere (DotLazy # rs) (p @ t) \<noteq> None"
  using assms(2)
proof (induction p)
  case Nil
  with assms(1) show ?case by simp
next
  case (Cons c p)
  then obtain x where x: "matchHere (DotLazy # rs) (p @ t) = Some x" by auto
  from matchHere_Cons_result [OF x] obtain y ys where yy: "x = y # ys" by blast
  from Cons.prems have nt: "\<not> isLineTerminator c" by simp
  show ?case
  proof (cases "matchHere rs (c # p @ t)")
    case None
    with x yy nt show ?thesis by simp
  next
    case (Some a)
    then show ?thesis by simp
  qed
qed

lemma matchHere_complete:
  "list_all2 pieceOk rs ps \<Longrightarrow> matchHere rs (concat ps @ rest) \<noteq> None"
proof (induction rs arbitrary: ps rest)
  case Nil
  then show ?case by simp
next
  case (Cons r rs)
  from Cons.prems obtain p qs where ps: "ps = p # qs" and ok: "pieceOk r p"
      and rest_ok: "list_all2 pieceOk rs qs"
    by (auto simp: list_all2_Cons1)
  define t where "t = concat qs @ rest"
  have tail: "matchHere rs t \<noteq> None"
    unfolding t_def using Cons.IH [OF rest_ok] .
  have "matchHere (r # rs) (p @ t) \<noteq> None"
  proof (cases r)
    case (Lit l)
    with ok have "p = l" by simp
    with tail Lit show ?thesis by simp
  next
    case AnyStar
    with tail show ?thesis by (simp only: anystar_zero anystar_extend not_False_eq_True)
  next
    case DotLazy
    with ok have "\<not> list_ex isLineTerminator p" by simp
    with tail DotLazy show ?thesis by (simp only: dotlazy_zero dotlazy_extend not_False_eq_True)
  qed
  then show ?case by (simp add: ps t_def)
qed

lemma search_sound:
  "search rs s = Some ps \<Longrightarrow>
     \<exists>n \<le> length s. matchHere rs (drop n s) = Some ps
       \<and> (\<forall>k < n. matchHere rs (drop k s) = None)"
proof (induction s)
  case Nil
  then show ?case by simp
next
  case (Cons c cs)
  show ?case
  proof (cases "matchHere rs (c # cs)")
    case (Some qs)
    with Cons.prems have "matchHere rs (drop 0 (c # cs)) = Some ps" by simp
    then show ?thesis by (intro exI [of _ 0]) simp
  next
    case None
    with Cons.prems have "search rs cs = Some ps" by simp
    from Cons.IH [OF this] obtain n where n: "n \<le> length cs" "matchHere rs (drop n cs) = Some ps"
       "\<forall>k < n. matchHere rs (drop k cs) = None" by blast
    have "\<forall>k < Suc n. matchHere rs (drop k (c # cs)) = None"
    proof (intro allI impI)
      fix k assume k: "k < Suc n"
      show "matchHere rs (drop k (c # cs)) = None"
      proof (cases k)
        case 0
        with None show ?thesis by simp
      next
        case (Suc j)
        with k n(3) show ?thesis by simp
      qed
    qed
    with n(1,2) show ?thesis by (intro exI [of _ "Suc n"]) simp
  qed
qed

lemma search_none:
  "search rs (pre @ post) = None \<Longrightarrow> matchHere rs post = None"
proof (induction pre)
  case Nil
  then show ?case by (cases post) (simp_all split: option.splits)
next
  case (Cons c pre)
  from Cons.prems have "search rs (pre @ post) = None" by (simp split: option.splits)
  then show ?case by (rule Cons.IH)
qed

lemma search_here: "matchHere rs s = Some ps \<Longrightarrow> search rs s = Some ps"
  by (cases s) simp_all

lemma search_skip:
  "(\<And>u v. pre = u @ v \<Longrightarrow> v \<noteq> [] \<Longrightarrow> matchHere rs (v @ post) = None)
     \<Longrightarrow> search rs (pre @ post) = search rs post"
proof (induction pre)
  case Nil
  then show ?case by simp
next
  case (Cons c pre)
  have "matchHere rs ((c # pre) @ post) = None"
    by (rule Cons.prems [of "[]"]) simp_all
  moreover have "search rs (pre @ post) = search rs post"
  proof (rule Cons.IH)
    fix u v assume "pre = u @ v" "v \<noteq> []"
    then show "matchHere rs (v @ post) = None"
      using Cons.prems [of "c # u" v] by simp
  qed
  ultimately show ?case by simp
qed

lemma greedy_end:
  "rs = rs0 @ [AnyStar, Lit [c]] \<Longrightarrow> matchHere rs s = Some ps
     \<Longrightarrow> c \<notin> set (drop (length (concat ps)) s)"
proof (induction rs s arbitrary: rs0 ps rule: matchHere.induct)
  case (1 s)
  then show ?case by simp
next
  case (2 l rs s)
  from "2.prems"(1) obtain rs1 where rs1: "rs0 = Lit l # rs1" "rs = rs1 @ [AnyStar, Lit [c]]"
    by (cases rs0) auto
  from "2.prems"(2) have pre: "take (length l) s = l" by (simp split: if_splits)
  with "2.prems"(2) obtain qs where qs: "matchHere rs (drop (length l) s) = Some qs" "ps = l # qs"
    by (auto split: if_splits)
  from "2.IH" [OF pre rs1(2) qs(1)] qs(2) show ?case by (simp add: add.commute)
next
  case (3 rs)
  then show ?case by simp
next
  case (4 rs d cs)
  show ?case
  proof (cases "matchHere (AnyStar # rs) cs")
    case (Some r)
    from matchHere_Cons_result [OF Some] obtain p qs where pq: "r = p # qs" by blast
    with Some "4.prems"(2) have ps: "ps = (d # p) # qs" by simp
    from "4.IH"(1) [OF "4.prems"(1) Some] pq ps show ?thesis by simp
  next
    case None
    with "4.prems"(2) obtain qs where qs: "matchHere rs (d # cs) = Some qs" "ps = [] # qs"
      by auto
    show ?thesis
    proof (cases rs0)
      case Nil
      with "4.prems"(1) have rs: "rs = [Lit [c]]" by simp
      with qs have dc: "d = c" "qs = [[c]]" by (auto split: if_splits)
      have "c \<notin> set cs"
      proof
        assume "c \<in> set cs"
        then obtain u v where uv: "cs = u @ c # v" by (auto dest: split_list)
        have "list_all2 pieceOk (AnyStar # rs) [u, [c]]" by (simp add: rs)
        from matchHere_complete [OF this, of v] uv have "matchHere (AnyStar # rs) cs \<noteq> None"
          by simp
        with None show False by simp
      qed
      with qs(2) dc show ?thesis by simp
    next
      case (Cons r rs1)
      with "4.prems"(1) have "rs = rs1 @ [AnyStar, Lit [c]]" by simp
      from "4.IH"(2) [OF _ this qs(1)] None qs(2) show ?thesis by simp
    qed
  qed
next
  case (5 rs)
  then show ?case by simp
next
  case (6 rs d cs)
  from "6.prems"(1) obtain rs1 where rs1: "rs0 = DotLazy # rs1" "rs = rs1 @ [AnyStar, Lit [c]]"
    by (cases rs0) auto
  show ?case
  proof (cases "matchHere rs (d # cs)")
    case (Some qs)
    with "6.prems"(2) have "ps = [] # qs" by simp
    with "6.IH"(1) [OF rs1(2) Some] show ?thesis by simp
  next
    case None
    with "6.prems"(2) have nt: "\<not> isLineTerminator d" by (auto split: if_splits)
    with None "6.prems"(2) obtain r where r: "matchHere (DotLazy # rs) cs = Some r"
      by (auto split: option.splits)
    from matchHere_Cons_result [OF r] obtain p qs where pq: "r = p # qs" by blast
    with None nt r "6.prems"(2) have ps: "ps = (d # p) # qs" by simp
    from "6.IH"(2) [OF None nt "6.prems"(1) r] pq ps show ?thesis by simp
  qed
qed

lemma first_occurrence_unique:
  "u @ c # x = v @ c # y \<Longrightarrow> c \<notin> set u \<Longrightarrow> c \<notin> set v \<Longrightarrow> u = v \<and> x = y"
proof (induction u arbitrary: v)
  case Nil
  then show ?case by (cases v) auto
next
  case (Cons a u)
  then show ?case by (cases v) auto
qed

lemma last_occurrence_unique:
  assumes "x @ c # u = y @ c # v" and "c \<notin> set u" and "c \<notin> set v"
  shows "u = v \<and> x = y"
proof -
  from assms(1) have "rev (x @ c # u) = rev (y @ c # v)" by simp
  then have "rev u @ c # rev x = rev v @ c # rev y" by simp
  from first_occurrence_unique [OF this] assms(2,3) show ?thesis by simp
qed

lemma outputPattern_pieces:
  \<open>list_all2 pieceOk outputPattern ps \<longleftrightarrow>
     (\<exists>a b c. ps = [''{'', a, ''"status"'', b, ''"findings"'', c, ''}''])\<close>
  unfolding outputPattern_def by (auto simp: list_all2_Cons1)

lemma outputPattern_match:
  assumes \<open>search outputPattern out = Some ps\<close>
  shows \<open>\<exists>pre a b c post.
           out = pre @ ''{'' @ a @ ''"status"'' @ b @ ''"findings"'' @ c @ ''}'' @ post
         \<and> ps = [''{'', a, ''"status"'', b, ''"findings"'', c, ''}'']
         \<and> CHR ''{'' \<notin> set pre \<and> CHR ''}'' \<notin> set post\<close>
proof -
  from search_sound [OF assms] obtain n where n: "n \<le> length out"
      "matchHere outputPattern (drop n out) = Some ps"
      "\<forall>k < n. matchHere outputPattern (drop k out) = None" by blast
  define pre where "pre = take n out"
  define post where "post = drop (length (concat ps)) (drop n out)"
  from matchHere_sound [OF n(2)] have ok: "list_all2 pieceOk outputPattern ps"
      and tk: "take (length (concat ps)) (drop n out) = concat ps" by simp_all
  from ok obtain a b c where ps: \<open>ps = [''{'', a, ''"status"'', b, ''"findings"'', c, ''}'']\<close>
    unfolding outputPattern_pieces by blast
  have "take (length (concat ps)) (drop n out) @ post = drop n out"
    unfolding post_def by (rule append_take_drop_id)
  then have d: "drop n out = concat ps @ post" by (simp only: tk)
  have "pre @ drop n out = out"
    unfolding pre_def by (rule append_take_drop_id)
  then have out: "out = pre @ concat ps @ post" by (simp only: d)
  have e: "CHR ''}'' \<notin> set post"
    unfolding post_def
    by (rule greedy_end [OF _ n(2), of "[Lit ''{'', AnyStar, Lit ''\"status\"'', AnyStar, Lit ''\"findings\"'']"])
       (simp add: outputPattern_def)
  have b: "CHR ''{'' \<notin> set pre"
  proof
    assume "CHR ''{'' \<in> set pre"
    then obtain u v where uv: "pre = u @ CHR ''{'' # v" by (auto dest: split_list)
    have "length pre = n" using n(1) by (simp add: pre_def)
    with uv have lt: "length u < n" by simp
    have dr: "drop (length u) out = (CHR ''{'' # v) @ concat ps @ post"
      using out uv by simp
    have \<open>list_all2 pieceOk outputPattern
            [''{'', v @ ''{'' @ a, ''"status"'', b, ''"findings"'', c, ''}'']\<close>
      unfolding outputPattern_pieces by blast
    from matchHere_complete [OF this, of post]
    have ne: "matchHere outputPattern (drop (length u) out) \<noteq> None"
      unfolding dr ps by simp
    from n(3) lt have "matchHere outputPattern (drop (length u) out) = None" by simp
    with ne show False by simp
  qed
  have \<open>out = pre @ ''{'' @ a @ ''"status"'' @ b @ ''"findings"'' @ c @ ''}'' @ post\<close>
    using out ps by simp
  with ps b e show ?thesis by blast
qed

lemma outputPattern_found:
  \<open>search outputPattern
      (pre @ ''{'' @ a @ ''"status"'' @ b @ ''"findings"'' @ c @ ''}'' @ post) \<noteq> None\<close>
proof
  assume \<open>search outputPattern
      (pre @ ''{'' @ a @ ''"status"'' @ b @ ''"findings"'' @ c @ ''}'' @ post) = None\<close>
  then have \<open>matchHere outputPattern
      (''{'' @ a @ ''"status"'' @ b @ ''"findings"'' @ c @ ''}'' @ post) = None\<close>
    by (rule search_none)
  moreover have \<open>list_all2 pieceOk outputPattern
      [''{'', a, ''"status"'', b, ''"findings"'', c, ''}'']\<close>
    unfolding outputPattern_pieces by blast
  from matchHere_complete [OF this, of post]
  have \<open>matchHere outputPattern
      (''{'' @ a @ ''"status"'' @ b @ ''"findings"'' @ c @ ''}'' @ post) \<noteq> None\<close>
    by simp
  ultimately show False by simp
qed

lemma outputPattern_tolerant:
  assumes "CHR ''{'' \<notin> set pre" and "CHR ''}'' \<notin> set post"
  shows \<open>\<exists>ps. search outputPattern
              (pre @ ''{'' @ a @ ''"status"'' @ b @ ''"findings"'' @ c @ ''}'' @ post) = Some ps
            \<and> concat ps = ''{'' @ a @ ''"status"'' @ b @ ''"findings"'' @ c @ ''}''\<close>
proof -
  let ?j = \<open>''{'' @ a @ ''"status"'' @ b @ ''"findings"'' @ c @ ''}''\<close>
  let ?out = \<open>pre @ ''{'' @ a @ ''"status"'' @ b @ ''"findings"'' @ c @ ''}'' @ post\<close>
  from outputPattern_found [of pre a b c post] obtain ps where s: "search outputPattern ?out = Some ps"
    by auto
  from outputPattern_match [OF s] obtain pre' a' b' c' post' where
      o: \<open>?out = pre' @ ''{'' @ a' @ ''"status"'' @ b' @ ''"findings"'' @ c' @ ''}'' @ post'\<close>
      and ps: \<open>ps = [''{'', a', ''"status"'', b', ''"findings"'', c', ''}'']\<close>
      and f: "CHR ''{'' \<notin> set pre'" and l: "CHR ''}'' \<notin> set post'" by blast
  from o have \<open>pre @ CHR ''{'' # (a @ ''"status"'' @ b @ ''"findings"'' @ c @ ''}'' @ post)
      = pre' @ CHR ''{'' # (a' @ ''"status"'' @ b' @ ''"findings"'' @ c' @ ''}'' @ post')\<close>
    by simp
  from first_occurrence_unique [OF this assms(1) f]
  have m: \<open>a @ ''"status"'' @ b @ ''"findings"'' @ c @ ''}'' @ post
      = a' @ ''"status"'' @ b' @ ''"findings"'' @ c' @ ''}'' @ post'\<close> by simp
  then have \<open>(a @ ''"status"'' @ b @ ''"findings"'' @ c) @ CHR ''}'' # post
      = (a' @ ''"status"'' @ b' @ ''"findings"'' @ c') @ CHR ''}'' # post'\<close> by simp
  from last_occurrence_unique [OF this assms(2) l]
  have \<open>a @ ''"status"'' @ b @ ''"findings"'' @ c = a' @ ''"status"'' @ b' @ ''"findings"'' @ c'\<close>
    by simp
  then have "concat ps = ?j" unfolding ps by simp
  with s show ?thesis by blast
qed

section \<open>Properties of the engine output parser\<close>

text \<open>
  Claim C7 (as amended).  On exit status zero the adapter parses the captured output.  The
  pattern finds a match iff the output contains an opening brace followed, in this order,
  by the texts \<open>"status"\<close>, \<open>"findings"\<close> and a closing brace; the text extracted is the
  one from the first opening brace of the output to its last closing brace.  So an object
  that names \<open>findings\<close> before \<open>status\<close> is not found, and prose around the object is
  tolerated when the prose before it has no opening brace and the prose after it no
  closing brace.  Without a match the result is the failure
  \<open>Could not find JSON in Claude output\<close>; with a match that JSON parsing or schema
  validation rejects it is a failure with the different error
  \<open>Failed to parse review JSON: ...\<close>; a success carries a validated result only.
\<close>

theorem parseReviewOutput_outcomes:
  \<open>onClose jp sp False (Some 0) out err = Some (parseReviewOutput jp sp out)
   \<and> (search outputPattern out = None \<longleftrightarrow>
        \<not> (\<exists>pre a b c post.
              out = pre @ ''{'' @ a @ ''"status"'' @ b @ ''"findings"'' @ c @ ''}'' @ post))
   \<and> (search outputPattern out = None \<longrightarrow>
        parseReviewOutput jp sp out =
          \<lparr> success = False, result = None,
            cli_error = Some ''Could not find JSON in Claude output'', rawOutput = Some out \<rparr>)
   \<and> (search outputPattern out = Some ps \<longrightarrow>
        (\<exists>pre a b c post.
            out = pre @ ''{'' @ a @ ''"status"'' @ b @ ''"findings"'' @ c @ ''}'' @ post
          \<and> concat ps = ''{'' @ a @ ''"status"'' @ b @ ''"findings"'' @ c @ ''}''
          \<and> CHR ''{'' \<notin> set pre \<and> CHR ''}'' \<notin> set post)
      \<and> (jp (concat ps) = Inl m \<longrightarrow>
            parseReviewOutput jp sp out =
              \<lparr> success = False, result = None,
                cli_error = Some (''Failed to parse review JSON: '' @ m), rawOutput = Some out \<rparr>)
      \<and> (jp (concat ps) = Inr j \<and> sp j = Inl m \<longrightarrow>
            parseReviewOutput jp sp out =
              \<lparr> success = False, result = None,
                cli_error = Some (''Failed to parse review JSON: '' @ m), rawOutput = Some out \<rparr>)
      \<and> (jp (concat ps) = Inr j \<and> sp j = Inr v \<longrightarrow>
            parseReviewOutput jp sp out =
              \<lparr> success = True, result = Some v, cli_error = None, rawOutput = Some out \<rparr>))
   \<and> (success (parseReviewOutput jp sp out) \<longrightarrow>
        (\<exists>qs k w. search outputPattern out = Some qs \<and> jp (concat qs) = Inr k \<and> sp k = Inr w
           \<and> result (parseReviewOutput jp sp out) = Some w))
   \<and> ''Failed to parse review JSON: '' @ m \<noteq> ''Could not find JSON in Claude output''
   \<and> (CHR ''{'' \<notin> set pre' \<and> CHR ''}'' \<notin> set post' \<longrightarrow>
        (\<exists>qs. search outputPattern
                (pre' @ ''{'' @ a' @ ''"status"'' @ b' @ ''"findings"'' @ c' @ ''}'' @ post') = Some qs
            \<and> concat qs = ''{'' @ a' @ ''"status"'' @ b' @ ''"findings"'' @ c' @ ''}''))\<close>
proof (intro conjI)
  show "onClose jp sp False (Some 0) out err = Some (parseReviewOutput jp sp out)"
    by (simp add: onClose_def)
next
  show \<open>search outputPattern out = None \<longleftrightarrow>
        \<not> (\<exists>pre a b c post.
              out = pre @ ''{'' @ a @ ''"status"'' @ b @ ''"findings"'' @ c @ ''}'' @ post)\<close>
  proof
    assume n: "search outputPattern out = None"
    show \<open>\<not> (\<exists>pre a b c post.
              out = pre @ ''{'' @ a @ ''"status"'' @ b @ ''"findings"'' @ c @ ''}'' @ post)\<close>
    proof
      assume \<open>\<exists>pre a b c post.
              out = pre @ ''{'' @ a @ ''"status"'' @ b @ ''"findings"'' @ c @ ''}'' @ post\<close>
      then obtain pre a b c post where
        \<open>out = pre @ ''{'' @ a @ ''"status"'' @ b @ ''"findings"'' @ c @ ''}'' @ post\<close> by blast
      with outputPattern_found [of pre a b c post] n show False by simp
    qed
  next
    assume e: \<open>\<not> (\<exists>pre a b c post.
              out = pre @ ''{'' @ a @ ''"status"'' @ b @ ''"findings"'' @ c @ ''}'' @ post)\<close>
    show "search outputPattern out = None"
    proof (cases "search outputPattern out")
      case None
      then show ?thesis .
    next
      case (Some qs)
      from outputPattern_match [OF Some] e show ?thesis by blast
    qed
  qed
next
  show "search outputPattern out = None \<longrightarrow>
        parseReviewOutput jp sp out =
          \<lparr> success = False, result = None,
            cli_error = Some ''Could not find JSON in Claude output'', rawOutput = Some out \<rparr>"
    by (simp add: parseReviewOutput_def)
next
  show \<open>search outputPattern out = Some ps \<longrightarrow>
        (\<exists>pre a b c post.
            out = pre @ ''{'' @ a @ ''"status"'' @ b @ ''"findings"'' @ c @ ''}'' @ post
          \<and> concat ps = ''{'' @ a @ ''"status"'' @ b @ ''"findings"'' @ c @ ''}''
          \<and> CHR ''{'' \<notin> set pre \<and> CHR ''}'' \<notin> set post)
      \<and> (jp (concat ps) = Inl m \<longrightarrow>
            parseReviewOutput jp sp out =
              \<lparr> success = False, result = None,
                cli_error = Some (''Failed to parse review JSON: '' @ m), rawOutput = Some out \<rparr>)
      \<and> (jp (concat ps) = Inr j \<and> sp j = Inl m \<longrightarrow>
            parseReviewOutput jp sp out =
              \<lparr> success = False, result = None,
                cli_error = Some (''Failed to parse review JSON: '' @ m), rawOutput = Some out \<rparr>)
      \<and> (jp (concat ps) = Inr j \<and> sp j = Inr v \<longrightarrow>
            parseReviewOutput jp sp out =
              \<lparr> success = True, result = Some v, cli_error = None, rawOutput = Some out \<rparr>)\<close>
  proof (intro impI conjI)
    assume s: "search outputPattern out = Some ps"
    from outputPattern_match [OF s] obtain pre a b c post where
        o: \<open>out = pre @ ''{'' @ a @ ''"status"'' @ b @ ''"findings"'' @ c @ ''}'' @ post\<close>
        and p: \<open>ps = [''{'', a, ''"status"'', b, ''"findings"'', c, ''}'']\<close>
        and f: "CHR ''{'' \<notin> set pre" and l: "CHR ''}'' \<notin> set post" by blast
    from p have \<open>concat ps = ''{'' @ a @ ''"status"'' @ b @ ''"findings"'' @ c @ ''}''\<close> by simp
    with o f l show \<open>\<exists>pre a b c post.
            out = pre @ ''{'' @ a @ ''"status"'' @ b @ ''"findings"'' @ c @ ''}'' @ post
          \<and> concat ps = ''{'' @ a @ ''"status"'' @ b @ ''"findings"'' @ c @ ''}''
          \<and> CHR ''{'' \<notin> set pre \<and> CHR ''}'' \<notin> set post\<close> by blast
  next
    assume "search outputPattern out = Some ps" "jp (concat ps) = Inl m"
    then show "parseReviewOutput jp sp out =
              \<lparr> success = False, result = None,
                cli_error = Some (''Failed to parse review JSON: '' @ m), rawOutput = Some out \<rparr>"
      by (simp add: parseReviewOutput_def)
  next
    assume "search outputPattern out = Some ps" "jp (concat ps) = Inr j \<and> sp j = Inl m"
    then show "parseReviewOutput jp sp out =
              \<lparr> success = False, result = None,
                cli_error = Some (''Failed to parse review JSON: '' @ m), rawOutput = Some out \<rparr>"
      by (simp add: parseReviewOutput_def)
  next
    assume "search outputPattern out = Some ps" "jp (concat ps) = Inr j \<and> sp j = Inr v"
    then show "parseReviewOutput jp sp out =
              \<lparr> success = True, result = Some v, cli_error = None, rawOutput = Some out \<rparr>"
      by (simp add: parseReviewOutput_def)
  qed
next
  show "success (parseReviewOutput jp sp out) \<longrightarrow>
        (\<exists>qs k w. search outputPattern out = Some qs \<and> jp (concat qs) = Inr k \<and> sp k = Inr w
           \<and> result (parseReviewOutput jp sp out) = Some w)"
    by (auto simp: parseReviewOutput_def split: option.splits sum.splits)
next
  show "''Failed to parse review JSON: '' @ m \<noteq> ''Could not find JSON in Claude output''"
    by simp
next
  show \<open>CHR ''{'' \<notin> set pre' \<and> CHR ''}'' \<notin> set post' \<longrightarrow>
        (\<exists>qs. search outputPattern
                (pre' @ ''{'' @ a' @ ''"status"'' @ b' @ ''"findings"'' @ c' @ ''}'' @ post') = Some qs
            \<and> concat qs = ''{'' @ a' @ ''"status"'' @ b' @ ''"findings"'' @ c' @ ''}'')\<close>
    using outputPattern_tolerant [of pre' post' a' b' c'] by blast
qed

theorem parseReviewOutput_outcomes_witness:
  \<open>parseReviewOutput exampleJsonParse exampleSchemaParse (''I am done. '' @ exampleOutput @ '' Bye.'')
     = \<lparr> success = True, result = Some emptyResult, cli_error = None,
         rawOutput = Some (''I am done. '' @ exampleOutput @ '' Bye.'') \<rparr>
   \<and> map_option concat (search outputPattern (''I am done. '' @ exampleOutput @ '' Bye.''))
     = Some exampleOutput
   \<and> parseReviewOutput exampleJsonParse exampleSchemaParse ''No result was produced.''
     = \<lparr> success = False, result = None,
         cli_error = Some ''Could not find JSON in Claude output'',
         rawOutput = Some ''No result was produced.'' \<rparr>
   \<and> parseReviewOutput exampleJsonParse exampleSchemaParse ''{"status": oops, "findings"}''
     = \<lparr> success = False, result = None,
         cli_error = Some ''Failed to parse review JSON: Unexpected token'',
         rawOutput = Some ''{"status": oops, "findings"}'' \<rparr>\<close>
proof -
  let ?o1 = "''I am done. '' @ exampleOutput @ '' Bye.''"
  let ?o3 = \<open>''{"status": oops, "findings"}''\<close>
  let ?p3 = \<open>[''{'', [], ''"status"'', '': oops, '', ''"findings"'', [], ''}'']\<close>
  have m1: "map_option concat (search outputPattern ?o1) = Some exampleOutput" by code_simp
  then obtain p1 where s1: "search outputPattern ?o1 = Some p1" and c1: "concat p1 = exampleOutput"
    unfolding map_option_eq_Some by blast
  have s2: "search outputPattern ''No result was produced.'' = None" by code_simp
  have s3: "search outputPattern ?o3 = Some ?p3" by code_simp
  have "exampleJsonParse exampleOutput = Inr exampleJson" by code_simp
  then have j1: "exampleJsonParse (concat p1) = Inr exampleJson
      \<and> exampleSchemaParse exampleJson = Inr emptyResult"
    unfolding c1 by (simp add: exampleSchemaParse_def)
  have j3: "exampleJsonParse (concat ?p3) = Inl ''Unexpected token''" by code_simp
  from parseReviewOutput_outcomes
    [where jp = exampleJsonParse and sp = exampleSchemaParse and out = ?o1 and ps = p1
       and j = exampleJson and v = emptyResult] s1 j1
  have a: "parseReviewOutput exampleJsonParse exampleSchemaParse ?o1
      = \<lparr> success = True, result = Some emptyResult, cli_error = None, rawOutput = Some ?o1 \<rparr>"
    by blast
  from parseReviewOutput_outcomes
    [where jp = exampleJsonParse and sp = exampleSchemaParse and out = "''No result was produced.''"] s2
  have b: "parseReviewOutput exampleJsonParse exampleSchemaParse ''No result was produced.''
      = \<lparr> success = False, result = None,
          cli_error = Some ''Could not find JSON in Claude output'',
          rawOutput = Some ''No result was produced.'' \<rparr>"
    by blast
  from parseReviewOutput_outcomes
    [where jp = exampleJsonParse and sp = exampleSchemaParse and out = ?o3 and ps = ?p3
       and m = "''Unexpected token''"] s3 j3
  have c: "parseReviewOutput exampleJsonParse exampleSchemaParse ?o3
      = \<lparr> success = False, result = None,
          cli_error = Some (''Failed to parse review JSON: '' @ ''Unexpected token''),
          rawOutput = Some ?o3 \<rparr>"
    by blast
  from c have c': "parseReviewOutput exampleJsonParse exampleSchemaParse ?o3
      = \<lparr> success = False, result = None,
          cli_error = Some ''Failed to parse review JSON: Unexpected token'',
          rawOutput = Some ?o3 \<rparr>"
    by simp
  from a m1 b c' show ?thesis by (intro conjI) assumption+
qed

text \<open>
  The claim as written fails in two ways.  The output \<open>reversedOutput\<close> is a JSON object
  with a \<open>status\<close> field and a \<open>findings\<close> field, and nothing else; its members come in
  another order, and the answer is that no JSON was found.  The output \<open>proseOutput\<close> is
  the object \<open>exampleOutput\<close>, which alone is parsed with success, with prose around it;
  the prose has braces, the text extracted starts at the first of them, and the answer is
  the parse failure.
\<close>

theorem parseReviewOutput_extraction_counterexample:
  "JSON_parse reversedOutput = Some reversedJson
   \<and> property reversedJson ''status'' = Some (jsString ''completed'')
   \<and> property reversedJson ''findings'' = Some (JArray [])
   \<and> parseReviewOutput exampleJsonParse exampleSchemaParse reversedOutput
     = \<lparr> success = False, result = None,
         cli_error = Some ''Could not find JSON in Claude output'',
         rawOutput = Some reversedOutput \<rparr>
   \<and> parseReviewOutput exampleJsonParse exampleSchemaParse exampleOutput
     = \<lparr> success = True, result = Some emptyResult, cli_error = None,
         rawOutput = Some exampleOutput \<rparr>
   \<and> proseOutput = ''I checked {src} first. '' @ exampleOutput @ '' Bye.''
   \<and> map_option concat (search outputPattern proseOutput)
     = Some (''{src} first. '' @ exampleOutput)
   \<and> parseReviewOutput exampleJsonParse exampleSchemaParse proseOutput
     = \<lparr> success = False, result = None,
         cli_error = Some ''Failed to parse review JSON: Unexpected token'',
         rawOutput = Some proseOutput \<rparr>"
  by code_simp

section \<open>Properties of a review session\<close>


lemma andThen_cases:
  "andThen m f s = (case m s of (Inl e, s1) \<Rightarrow> (Inl e, s1) | (Inr x, s1) \<Rightarrow> f x s1)"
  by (simp add: andThen_def)







lemma tryCatch_Inr:
  assumes "tryCatch m h s = (Inr y, s')"
  shows "m s = (Inr y, s') \<or> (\<exists>e s1. m s = (Inl e, s1) \<and> h e s1 = (Inr y, s'))"
  using assms unfolding tryCatch_def by (auto split: prod.splits sum.splits)




lemma skipped_success: "o_success (skippedOutcome r) \<and> o_action (skippedOutcome r) = Some out_skipped"
  by (simp add: skippedOutcome_def)

lemma ensuresD: "ensures m Q \<Longrightarrow> m s = (Inr y, s') \<Longrightarrow> Q y"
  unfolding ensures_def by blast






lemma ensures_tryCatch:
  assumes "ensures m Q" and "\<And>e. ensures (h e) Q"
  shows "ensures (tryCatch m h) Q"
  unfolding ensures_def
proof (intro allI impI)
  fix s y s' assume "tryCatch m h s = (Inr y, s')"
  from tryCatch_Inr [OF this] show "Q y"
  proof
    assume "m s = (Inr y, s')"
    with assms(1) show ?thesis by (rule ensuresD)
  next
    assume "\<exists>e s1. m s = (Inl e, s1) \<and> h e s1 = (Inr y, s')"
    then obtain e s1 where "h e s1 = (Inr y, s')" by blast
    with assms(2) [of e] show ?thesis by (rule ensuresD)
  qed
qed























end
